theory Spec2Isabelle
  imports Main
begin

section \<open>JavaScript values used by the format table\<close>

text \<open>
  The format table of Tab Copy is TypeScript. Strings are modelled as character lists; the
  operations the table uses (concatenation, \<^verbatim>\<open>startsWith\<close>, replacing one character
  everywhere) work character by character. An optional property or argument
  (\<^verbatim>\<open>title?: string\<close>) is an \<open>option\<close>, with \<open>None\<close> for \<^verbatim>\<open>undefined\<close>.
  A call that can throw returns a sum, with \<open>Inl\<close> for the exception.
\<close>

datatype js_error = TypeError

text \<open>Truthiness of an optional string: \<^verbatim>\<open>undefined\<close> and \<^verbatim>\<open>''\<close> are falsy.\<close>

fun truthy :: "string option \<Rightarrow> bool" where
  "truthy None = False"
| "truthy (Some s) = (s \<noteq> [])"

text \<open>\<^verbatim>\<open>a || b\<close> on optional strings: the left operand when it is truthy, else the right one.\<close>

definition js_or :: "string option \<Rightarrow> string option \<Rightarrow> string option" where
  "js_or a b = (if truthy a then a else b)"

text \<open>\<^verbatim>\<open>a || b\<close> where the right operand is a string for certain.\<close>

definition js_or_str :: "string option \<Rightarrow> string \<Rightarrow> string" where
  "js_or_str a b = (case a of None \<Rightarrow> b | Some s \<Rightarrow> if s = [] then b else s)"

text \<open>A value inside a template literal: \<^verbatim>\<open>`${undefined}`\<close> is the text \<^verbatim>\<open>undefined\<close>.\<close>

fun template_str :: "string option \<Rightarrow> string" where
  "template_str None = ''undefined''"
| "template_str (Some s) = s"

text \<open>\<^verbatim>\<open>s.startsWith(p)\<close>.\<close>

definition startsWith :: "string \<Rightarrow> string \<Rightarrow> bool" where
  "startsWith s p = (take (length p) s = p)"

text \<open>\<^verbatim>\<open>s.replace(/c/g, r)\<close> for a single character \<open>c\<close>: every occurrence, left to right.\<close>

fun replace_all :: "char \<Rightarrow> string \<Rightarrow> string \<Rightarrow> string" where
  "replace_all c r [] = []"
| "replace_all c r (x # xs) = (if x = c then r @ replace_all c r xs else x # replace_all c r xs)"

text \<open>A non-negative whole number inside a template literal: its decimal digits.\<close>

function string_of_nat :: "nat \<Rightarrow> string" where
  "string_of_nat n =
    (if n < 10 then [''0123456789'' ! n]
     else string_of_nat (n div 10) @ [''0123456789'' ! (n mod 10)])"
  by pat_completeness auto
termination
  by (relation "measure (\<lambda>n. n)") auto

section \<open>Tabs and format options\<close>

text \<open>The fields of \<^verbatim>\<open>chrome.tabs.Tab\<close> that the formats read; all three are optional.\<close>

record Tab =
  title :: "string option"
  url :: "string option"
  favIconUrl :: "string option"

text \<open>
  An options object. Each format declares its own shape, and the callbacks read the
  properties with \<^verbatim>\<open>opts?.separator\<close>, \<^verbatim>\<open>opts?.properties?.length\<close> and so on, so
  every property is optional here.
\<close>

record template =
  header :: string
  tab_template :: string
  delimiter :: string
  footer :: string

record opts =
  separator :: "string option"
  properties :: "string list option"
  pretty :: "bool option"
  indent :: "string option"
  includeHeader :: "bool option"
  name :: "string option"
  template :: "template option"

definition no_opts :: opts where
  "no_opts = \<lparr>separator = None, properties = None, pretty = None, indent = None,
     includeHeader = None, name = None, template = None\<rparr>"

definition DEFAULT_TITLE_URL_1_LINE_SEPARATOR :: string where
  "DEFAULT_TITLE_URL_1_LINE_SEPARATOR = '': ''"

definition DEFAULT_CUSTOM_FORMAT_NAME :: string where
  "DEFAULT_CUSTOM_FORMAT_NAME = ''Custom format''"

definition DEFAULT_INDENT_SIZE :: nat where
  "DEFAULT_INDENT_SIZE = 3"

section \<open>The format registry\<close>

text \<open>
  An entry of \<^verbatim>\<open>builtinFormats\<close>: its id and the default options it declares
  (\<open>None\<close> when the entry has no \<^verbatim>\<open>opts\<close> property). The \<^verbatim>\<open>label\<close> and
  \<^verbatim>\<open>transforms\<close> functions of the entries are modelled further down, format by format.
\<close>

record format =
  format_id :: string
  format_opts :: "opts option"

text \<open>\<^verbatim>\<open>customFormat\<close> has no id (\<^verbatim>\<open>Omit<Format, 'id'>\<close>) and always declares options.\<close>

record custom_format =
  custom_opts :: opts

text \<open>What \<^verbatim>\<open>getFormat\<close> hands back: the custom template or a built-in entry.\<close>

datatype format_entry = CustomFormat custom_format | BuiltinFormat format

definition builtinFormats :: "format list" where
  "builtinFormats =
    [\<lparr>format_id = ''link'', format_opts = None\<rparr>,
     \<lparr>format_id = ''url'', format_opts = None\<rparr>,
     \<lparr>format_id = ''titleUrl1Line'',
      format_opts = Some (no_opts\<lparr>separator := Some DEFAULT_TITLE_URL_1_LINE_SEPARATOR\<rparr>)\<rparr>,
     \<lparr>format_id = ''titleUrl2Line'', format_opts = None\<rparr>,
     \<lparr>format_id = ''title'', format_opts = None\<rparr>,
     \<lparr>format_id = ''markdown'', format_opts = None\<rparr>,
     \<lparr>format_id = ''bbcode'', format_opts = None\<rparr>,
     \<lparr>format_id = ''csv'', format_opts = None\<rparr>,
     \<lparr>format_id = ''json'',
      format_opts = Some (no_opts\<lparr>properties := Some [''title'', ''url''], pretty := Some True,
        indent := Some (string_of_nat DEFAULT_INDENT_SIZE)\<rparr>)\<rparr>,
     \<lparr>format_id = ''html'', format_opts = None\<rparr>,
     \<lparr>format_id = ''htmlTable'',
      format_opts = Some (no_opts\<lparr>includeHeader := Some False\<rparr>)\<rparr>]"

definition customFormat :: custom_format where
  "customFormat =
    \<lparr>custom_opts = no_opts\<lparr>name := Some DEFAULT_CUSTOM_FORMAT_NAME,
       template := Some \<lparr>header = ''[date][n][n]'',
         tab_template = ''[#]) Title: [title][n]   URL:   [url]'',
         delimiter = ''[n][n]'', footer = ''''\<rparr>\<rparr>\<rparr>"

definition builtinFormatIds :: "string list" where
  "builtinFormatIds = map format_id builtinFormats"

definition isCustomFormatId :: "string \<Rightarrow> bool" where
  "isCustomFormatId fid = startsWith fid ''custom-''"

text \<open>
  \<^verbatim>\<open>getFormat\<close> contains no \<^verbatim>\<open>throw\<close>: \<^verbatim>\<open>Array.prototype.find\<close> gives
  \<^verbatim>\<open>undefined\<close> when no entry matches, and the function returns it (the type assertion
  on the result has no effect when the program runs). So the result is always \<open>Inr\<close>, with
  \<open>None\<close> for \<^verbatim>\<open>undefined\<close>.
\<close>

definition getFormat :: "string \<Rightarrow> js_error + format_entry option" where
  "getFormat fid =
    Inr (if isCustomFormatId fid then Some (CustomFormat customFormat)
         else map_option BuiltinFormat (find (\<lambda>format. format_id format = fid) builtinFormats))"

definition builtinFormatWithOptsIds :: "string list" where
  "builtinFormatWithOptsIds =
    map format_id (filter (\<lambda>format. format_opts format \<noteq> None) builtinFormats)"

definition isBuiltinFormatWithOptsId :: "string \<Rightarrow> bool" where
  "isBuiltinFormatWithOptsId fid = (fid \<in> set builtinFormatWithOptsIds)"

definition isFormatWithOptsId :: "string \<Rightarrow> bool" where
  "isFormatWithOptsId fid = (isBuiltinFormatWithOptsId fid \<or> isCustomFormatId fid)"

section \<open>Collaborators outside the format table\<close>

text \<open>
  The table imports \<^verbatim>\<open>sentenceCase\<close> and \<^verbatim>\<open>encodeHtml\<close> from the string utilities,
  \<^verbatim>\<open>stringifyCSVRow\<close> from the CSV utilities and the localised word for a window from
  \<^verbatim>\<open>intl\<close>. They are parameters of the model: nothing is assumed about them.
\<close>

datatype csv_item = CsvNull | CsvString string

record externals =
  sentenceCase :: "string \<Rightarrow> string"
  encodeHtml :: "string \<Rightarrow> string"
  stringifyCSVRow :: "csv_item list \<Rightarrow> string"
  intl_window :: string

text \<open>
  Sample collaborators, for the places where a statement is instantiated at concrete
  values: the theorems themselves hold for all collaborators.
\<close>

fun sample_csv_item :: "csv_item \<Rightarrow> string" where
  "sample_csv_item CsvNull = ''<>''"
| "sample_csv_item (CsvString s) = ''<'' @ s @ ''>''"

definition sample_externals :: externals where
  "sample_externals =
    \<lparr>sentenceCase = (\<lambda>s. s), encodeHtml = replace_all CHR ''<'' ''&lt;'',
     stringifyCSVRow = (\<lambda>items. concat (map sample_csv_item items)),
     intl_window = ''Window''\<rparr>"

section \<open>Transforms\<close>

text \<open>The context objects of the callbacks, as the type \<^verbatim>\<open>TextTransform\<close> declares them.\<close>

datatype scope_type = WindowType | TabType

record end_ctx =
  formatName :: string
  windowCount :: "nat option"
  tabCount :: nat

record start_ctx = end_ctx +
  scopeType :: scope_type

record Window =
  tabs :: "Tab list"

record window_ctx =
  window :: Window
  seq :: nat
  windowTabCount :: nat

record tab_ctx =
  tab :: Tab
  globalSeq :: nat
  windowTabSeq :: "nat option"
  windowSeq :: "nat option"

record TextTransform =
  start :: "(start_ctx \<Rightarrow> string) option"
  windowStart :: "(window_ctx \<Rightarrow> string) option"
  tab_fn :: "(tab_ctx \<Rightarrow> string) option"
  tabDelimiter :: "string option"
  windowEnd :: "(window_ctx \<Rightarrow> string) option"
  windowDelimiter :: "string option"
  end_fn :: "(end_ctx \<Rightarrow> string) option"

text \<open>
  A \<^verbatim>\<open>Transforms\<close> object: the text representation and the optional html one. No
  built-in format declares the third representation (\<^verbatim>\<open>nxs\<close>), which is left out.
\<close>

record Transforms =
  text_t :: TextTransform
  html_t :: "TextTransform option"

definition no_transform :: TextTransform where
  "no_transform = \<lparr>start = None, windowStart = None, tab_fn = None, tabDelimiter = None,
     windowEnd = None, windowDelimiter = None, end_fn = None\<rparr>"

section \<open>Helpers of the format table\<close>

definition getNumberedWindowText :: "externals \<Rightarrow> nat \<Rightarrow> string" where
  "getNumberedWindowText ext n = sentenceCase ext (intl_window ext) @ '' '' @ string_of_nat n"

text \<open>
  \<^verbatim>\<open>getTitleUrlText(url, title?, separator = ': ')\<close>. The callers pass \<^verbatim>\<open>url!\<close>, which
  is \<^verbatim>\<open>undefined\<close> when the tab has no url, and the default of \<^verbatim>\<open>separator\<close> applies
  when the argument is \<^verbatim>\<open>undefined\<close>.
\<close>

definition getTitleUrlText :: "string option \<Rightarrow> string option \<Rightarrow> string option \<Rightarrow> string" where
  "getTitleUrlText u t sep =
    js_or_str t ''(untitled)''
      @ (case sep of None \<Rightarrow> DEFAULT_TITLE_URL_1_LINE_SEPARATOR | Some s \<Rightarrow> s)
      @ template_str u"

text \<open>
  The other copy of the table declares the fallback as a default parameter
  (\<^verbatim>\<open>title = '(untitled)'\<close>), which applies to \<^verbatim>\<open>undefined\<close> only.
\<close>

definition getTitleUrlText_part002 ::
  "string option \<Rightarrow> string option \<Rightarrow> string option \<Rightarrow> string" where
  "getTitleUrlText_part002 u t sep =
    (case t of None \<Rightarrow> ''(untitled)'' | Some s \<Rightarrow> s)
      @ (case sep of None \<Rightarrow> DEFAULT_TITLE_URL_1_LINE_SEPARATOR | Some s \<Rightarrow> s)
      @ template_str u"

definition getAnchorTagHtml :: "externals \<Rightarrow> Tab \<Rightarrow> string" where
  "getAnchorTagHtml ext t =
    (case url t of
       None \<Rightarrow> []
     | Some u \<Rightarrow>
         if u = [] then []
         else ''<a href='' @ [CHR 0x22] @ u @ [CHR 0x22] @ ''>''
                @ encodeHtml ext (js_or_str (title t) u) @ ''</a>'')"

section \<open>The transforms of the built-in formats\<close>

text \<open>\<^verbatim>\<open>opts?.separator\<close>.\<close>

definition opts_separator :: "opts option \<Rightarrow> string option" where
  "opts_separator os = (case os of None \<Rightarrow> None | Some opt \<Rightarrow> separator opt)"

text \<open>The html representation of \<^verbatim>\<open>link\<close>.\<close>

definition link_html :: "externals \<Rightarrow> TextTransform" where
  "link_html ext = no_transform\<lparr>
     windowStart := Some (\<lambda>c. getNumberedWindowText ext (seq c) @ ''<br>\<newline><br>\<newline>''),
     tab_fn := Some (\<lambda>c. getAnchorTagHtml ext (tab c)),
     tabDelimiter := Some ''<br>\<newline>'',
     windowDelimiter := Some ''<br>\<newline><br>\<newline>''\<rparr>"

definition titleUrl1Line_transforms :: "externals \<Rightarrow> opts option \<Rightarrow> Transforms" where
  "titleUrl1Line_transforms ext os =
    \<lparr>text_t = no_transform\<lparr>
       windowStart := Some (\<lambda>c. getNumberedWindowText ext (seq c) @ ''\<newline>\<newline>''),
       tab_fn := Some (\<lambda>c. getTitleUrlText (url (tab c)) (title (tab c)) (opts_separator os)),
       tabDelimiter := Some ''\<newline>'',
       windowDelimiter := Some ''\<newline>\<newline>''\<rparr>,
     html_t = None\<rparr>"

definition titleUrl1Line_transforms_part002 :: "externals \<Rightarrow> opts option \<Rightarrow> Transforms" where
  "titleUrl1Line_transforms_part002 ext os =
    \<lparr>text_t = no_transform\<lparr>
       windowStart := Some (\<lambda>c. getNumberedWindowText ext (seq c) @ ''\<newline>\<newline>''),
       tab_fn := Some (\<lambda>c.
         getTitleUrlText_part002 (url (tab c)) (title (tab c)) (opts_separator os)),
       tabDelimiter := Some ''\<newline>'',
       windowDelimiter := Some ''\<newline>\<newline>''\<rparr>,
     html_t = None\<rparr>"

text \<open>
  \<^verbatim>\<open>titleUrl2Line\<close> declares \<^verbatim>\<open>transforms: () => ...\<close>: the options passed by the
  caller are not read.
\<close>

definition titleUrl2Line_transforms :: "externals \<Rightarrow> opts option \<Rightarrow> Transforms" where
  "titleUrl2Line_transforms ext os =
    \<lparr>text_t = no_transform\<lparr>
       windowStart := Some (\<lambda>c. getNumberedWindowText ext (seq c) @ ''\<newline>\<newline>''),
       tab_fn := Some (\<lambda>c. getTitleUrlText (url (tab c)) (title (tab c)) (Some ''\<newline>'')),
       tabDelimiter := Some ''\<newline>\<newline>'',
       windowDelimiter := Some ''\<newline>\<newline>''\<rparr>,
     html_t = None\<rparr>"

text \<open>
  The tab callback of \<^verbatim>\<open>markdown\<close>. \<^verbatim>\<open>(title || url!).replace(...)\<close> and
  \<^verbatim>\<open>url!.replace(...)\<close> throw a TypeError on \<^verbatim>\<open>undefined\<close>; the template literal
  evaluates them in this order.
\<close>

definition markdown_tab :: "tab_ctx \<Rightarrow> js_error + string" where
  "markdown_tab c =
    (case js_or (title (tab c)) (url (tab c)) of
       None \<Rightarrow> Inl TypeError
     | Some t \<Rightarrow>
         (case url (tab c) of
            None \<Rightarrow> Inl TypeError
          | Some u \<Rightarrow>
              Inr (''['' @ replace_all CHR '']'' [CHR 0x5C, CHR '']'']
                            (replace_all CHR ''['' [CHR 0x5C, CHR ''[''] t)
                   @ '']('' @ replace_all CHR '')'' [CHR 0x5C, CHR '')'']
                                 (replace_all CHR ''('' [CHR 0x5C, CHR ''(''] u)
                   @ '')'')))"




text \<open>
  The tab callback of \<^verbatim>\<open>json\<close> builds an object from the tab and hands it to
  \<^verbatim>\<open>JSON.stringify\<close>. The object is modelled as its list of properties, in the order of
  the object literal.
\<close>

definition json_noProperties :: "opts option \<Rightarrow> bool" where
  "json_noProperties os =
    (case os of
       None \<Rightarrow> True
     | Some opt \<Rightarrow> (case properties opt of None \<Rightarrow> True | Some ps \<Rightarrow> length ps = 0))"

text \<open>
  \<^verbatim>\<open>noProperties || opts.properties.includes(k)\<close>: the right operand is evaluated only
  when \<^verbatim>\<open>noProperties\<close> is false, that is when \<^verbatim>\<open>opts.properties\<close> is a non-empty array.
\<close>

definition json_selected :: "opts option \<Rightarrow> string \<Rightarrow> bool" where
  "json_selected os k =
    (if json_noProperties os then True
     else (case os of
             None \<Rightarrow> False
           | Some opt \<Rightarrow> (case properties opt of None \<Rightarrow> False | Some ps \<Rightarrow> k \<in> set ps)))"

text \<open>\<^verbatim>\<open>...(v && selected ? { k: v } : null)\<close>: one property or none.\<close>

definition spread_property :: "string \<Rightarrow> string option \<Rightarrow> bool \<Rightarrow> (string \<times> string) list" where
  "spread_property k v selected =
    (case v of None \<Rightarrow> [] | Some s \<Rightarrow> if s \<noteq> [] \<and> selected then [(k, s)] else [])"

definition json_tab_object :: "opts option \<Rightarrow> tab_ctx \<Rightarrow> (string \<times> string) list" where
  "json_tab_object os c =
    spread_property ''title'' (title (tab c)) (json_selected os ''title'')
    @ spread_property ''url'' (url (tab c)) (json_selected os ''url'')
    @ spread_property ''favIconUrl'' (favIconUrl (tab c)) (json_selected os ''favIconUrl'')"

definition htmlTable_transforms :: "externals \<Rightarrow> opts option \<Rightarrow> Transforms" where
  "htmlTable_transforms ext os =
    \<lparr>text_t = no_transform\<lparr>
       tab_fn := Some (\<lambda>c. getAnchorTagHtml ext (tab c)),
       tabDelimiter := Some ''<br>\<newline>''\<rparr>,
     html_t = Some (no_transform\<lparr>
       tab_fn := Some (\<lambda>c. getAnchorTagHtml ext (tab c)),
       tabDelimiter := Some ''<br>\<newline>''\<rparr>)\<rparr>"

section \<open>The render pipeline\<close>

text \<open>
  Modelled from the spec: the render pipeline (the function that walks the windows and
  tabs and calls the callbacks of a \<^verbatim>\<open>TextTransform\<close>) is not among the source files;
  the definitions of this section follow section 4.3 of the specification. The three
  scopes are those of its data model.
\<close>

datatype scope = TabScope | WindowScope | WindowsScope

text \<open>
  Modelled from the spec: the pieces of a rendered representation, each tagged with the
  position of the pipeline that emitted it. The rendered string is the concatenation of
  the texts. A position whose callback is absent emits the empty text.
\<close>

datatype fragment =
    FStart string
  | FWindowStart string
  | FTab string
  | FTabDelimiter string
  | FWindowEnd string
  | FWindowDelimiter string
  | FEnd string

text \<open>
  Modelled from the spec: the text that a fragment contributes to the rendered string, and
  the tests that tell the positions apart.
\<close>

fun fragment_text :: "fragment \<Rightarrow> string" where
  "fragment_text (FStart s) = s"
| "fragment_text (FWindowStart s) = s"
| "fragment_text (FTab s) = s"
| "fragment_text (FTabDelimiter s) = s"
| "fragment_text (FWindowEnd s) = s"
| "fragment_text (FWindowDelimiter s) = s"
| "fragment_text (FEnd s) = s"

fun is_tab_delimiter :: "fragment \<Rightarrow> bool" where
  "is_tab_delimiter (FTabDelimiter s) = True"
| "is_tab_delimiter f = False"

fun is_window_delimiter :: "fragment \<Rightarrow> bool" where
  "is_window_delimiter (FWindowDelimiter s) = True"
| "is_window_delimiter f = False"

fun is_tab_output :: "fragment \<Rightarrow> bool" where
  "is_tab_output (FTab s) = True"
| "is_tab_output f = False"

fun is_window_start :: "fragment \<Rightarrow> bool" where
  "is_window_start (FWindowStart s) = True"
| "is_window_start f = False"

fun is_window_end :: "fragment \<Rightarrow> bool" where
  "is_window_end (FWindowEnd s) = True"
| "is_window_end f = False"

text \<open>Modelled from the spec: "emit the callback if present"; an absent callback emits nothing.\<close>

definition emit :: "('c \<Rightarrow> string) option \<Rightarrow> 'c \<Rightarrow> string" where
  "emit cb c = (case cb of None \<Rightarrow> [] | Some f \<Rightarrow> f c)"

text \<open>Modelled from the spec: a delimiter that is not declared is the empty string.\<close>

definition delimiter_text :: "string option \<Rightarrow> string" where
  "delimiter_text d = (case d of None \<Rightarrow> [] | Some s \<Rightarrow> s)"

text \<open>
  Modelled from the spec: joining successive blocks with a delimiter, which goes strictly
  between two blocks.
\<close>

fun join_blocks :: "'a list \<Rightarrow> 'a list list \<Rightarrow> 'a list" where
  "join_blocks d [] = []"
| "join_blocks d [b] = b"
| "join_blocks d (b # c # bs) = b @ d @ join_blocks d (c # bs)"

text \<open>
  Modelled from the spec: only the scope of several windows wraps each window with the
  window-level callbacks and separates the windows with \<^verbatim>\<open>windowDelimiter\<close>.
\<close>

definition window_boundaries :: "scope \<Rightarrow> bool" where
  "window_boundaries sc = (sc = WindowsScope)"

text \<open>
  Modelled from the spec: step 2b. The tabs of one window, in order; \<open>before\<close> is the
  number of tabs of the windows already rendered, so that \<^verbatim>\<open>globalSeq\<close> counts from 1
  across all windows. The two window-related sequence numbers are missing for the scopes
  without window boundaries, as the context type of the source says.
\<close>

definition render_tabs :: "TextTransform \<Rightarrow> scope \<Rightarrow> nat \<Rightarrow> nat \<Rightarrow> Tab list \<Rightarrow> fragment list" where
  "render_tabs tt sc wseq before ts =
    join_blocks [FTabDelimiter (delimiter_text (tabDelimiter tt))]
      (map (\<lambda>(i, t).
              [FTab (emit (tab_fn tt)
                 \<lparr>tab = t, globalSeq = before + i,
                  windowTabSeq = (if window_boundaries sc then Some i else None),
                  windowSeq = (if window_boundaries sc then Some wseq else None)\<rparr>)])
           (enumerate 1 ts))"

text \<open>Modelled from the spec: steps 2a to 2c, the block of one window.\<close>

definition window_block :: "TextTransform \<Rightarrow> scope \<Rightarrow> nat \<Rightarrow> nat \<Rightarrow> Window \<Rightarrow> fragment list" where
  "window_block tt sc wseq before w =
    (if window_boundaries sc
     then [FWindowStart (emit (windowStart tt)
             \<lparr>window = w, seq = wseq, windowTabCount = length (tabs w)\<rparr>)]
     else [])
    @ render_tabs tt sc wseq before (tabs w)
    @ (if window_boundaries sc
       then [FWindowEnd (emit (windowEnd tt)
               \<lparr>window = w, seq = wseq, windowTabCount = length (tabs w)\<rparr>)]
       else [])"

text \<open>Modelled from the spec: step 2, the blocks of the windows in order, numbered from \<open>wseq\<close>.\<close>

fun window_blocks :: "TextTransform \<Rightarrow> scope \<Rightarrow> nat \<Rightarrow> nat \<Rightarrow> Window list \<Rightarrow> fragment list list" where
  "window_blocks tt sc wseq before [] = []"
| "window_blocks tt sc wseq before (w # ws) =
    window_block tt sc wseq before w
      # window_blocks tt sc (Suc wseq) (before + length (tabs w)) ws"

text \<open>Modelled from the spec: the number of tabs in scope, over all windows.\<close>

definition total_tabs :: "Window list \<Rightarrow> nat" where
  "total_tabs ws = length (concat (map tabs ws))"

text \<open>
  Modelled from the spec: steps 1 to 4 for one representation. \<^verbatim>\<open>start\<close> is emitted for
  the two window scopes (step 1); for the scope of a single tab only the tab callback
  fires (step 3), so neither \<^verbatim>\<open>start\<close> nor \<^verbatim>\<open>end\<close> is emitted there. The context of
  \<^verbatim>\<open>start\<close> carries the window count for the scope of several windows only, and its
  \<^verbatim>\<open>scopeType\<close>, which the source declares as \<^verbatim>\<open>'window' | 'tab'\<close>, is
  \<^verbatim>\<open>'window'\<close> for that scope and \<^verbatim>\<open>'tab'\<close> for the others.
\<close>

definition render_fragments :: "TextTransform \<Rightarrow> scope \<Rightarrow> string \<Rightarrow> Window list \<Rightarrow> fragment list" where
  "render_fragments tt sc fname ws =
    (if sc \<noteq> TabScope
     then [FStart (emit (start tt)
             \<lparr>formatName = fname,
              windowCount = (if window_boundaries sc then Some (length ws) else None),
              tabCount = total_tabs ws,
              scopeType = (if window_boundaries sc then WindowType else TabType)\<rparr>)]
     else [])
    @ (if window_boundaries sc
       then join_blocks [FWindowDelimiter (delimiter_text (windowDelimiter tt))]
              (window_blocks tt sc 1 0 ws)
       else concat (window_blocks tt sc 1 0 ws))
    @ (if sc \<noteq> TabScope
       then [FEnd (emit (end_fn tt)
               \<lparr>formatName = fname,
                windowCount = (if window_boundaries sc then Some (length ws) else None),
                tabCount = total_tabs ws\<rparr>)]
       else [])"

text \<open>Modelled from the spec: the rendered string of one representation.\<close>

definition render_text :: "TextTransform \<Rightarrow> scope \<Rightarrow> string \<Rightarrow> Window list \<Rightarrow> string" where
  "render_text tt sc fname ws = concat (map fragment_text (render_fragments tt sc fname ws))"

text \<open>
  Modelled from the spec: \<^verbatim>\<open>render\<close>, one string for each representation that the
  \<^verbatim>\<open>Transforms\<close> declares.
\<close>

record rendering =
  text_out :: string
  html_out :: "string option"

definition render :: "Transforms \<Rightarrow> scope \<Rightarrow> string \<Rightarrow> Window list \<Rightarrow> rendering" where
  "render tr sc fname ws =
    \<lparr>text_out = render_text (text_t tr) sc fname ws,
     html_out = map_option (\<lambda>tt. render_text tt sc fname ws) (html_t tr)\<rparr>"

text \<open>The fragments that belong to the block of a window.\<close>

fun in_window_block :: "fragment \<Rightarrow> bool" where
  "in_window_block (FWindowStart s) = True"
| "in_window_block (FTab s) = True"
| "in_window_block (FTabDelimiter s) = True"
| "in_window_block (FWindowEnd s) = True"
| "in_window_block f = False"

text \<open>The number of fragments of a rendering that satisfy a test.\<close>

definition count_fragments :: "(fragment \<Rightarrow> bool) \<Rightarrow> fragment list \<Rightarrow> nat" where
  "count_fragments p fs = length (filter p fs)"

text \<open>
  What it means for two consecutive fragments \<open>a\<close>, \<open>b\<close> that the delimiters stand
  between the right neighbours: a tab delimiter has a tab output on either side, and a
  window delimiter has the end of a window block before it and the start of one after it.
\<close>

definition well_placed :: "fragment \<Rightarrow> fragment \<Rightarrow> bool" where
  "well_placed a b \<longleftrightarrow>
    (is_tab_delimiter a \<longrightarrow> is_tab_output b) \<and> (is_tab_delimiter b \<longrightarrow> is_tab_output a)
    \<and> (is_window_delimiter a \<longrightarrow> is_window_start b)
    \<and> (is_window_delimiter b \<longrightarrow> is_window_end a)"

section \<open>Properties of the registry\<close>

lemma startsWith_iff: "startsWith s p \<longleftrightarrow> (\<exists>rest. s = p @ rest)"
proof
  assume "startsWith s p"
  then have "s = p @ drop (length p) s"
    unfolding startsWith_def by (metis append_take_drop_id)
  then show "\<exists>rest. s = p @ rest" ..
next
  assume "\<exists>rest. s = p @ rest"
  then show "startsWith s p"
    unfolding startsWith_def by auto
qed

lemma builtinFormatIds_eq:
  "builtinFormatIds = [''link'', ''url'', ''titleUrl1Line'', ''titleUrl2Line'', ''title'',
     ''markdown'', ''bbcode'', ''csv'', ''json'', ''html'', ''htmlTable'']"
  by (simp add: builtinFormatIds_def builtinFormats_def)

lemma builtinFormatWithOptsIds_eq:
  "builtinFormatWithOptsIds = [''titleUrl1Line'', ''json'', ''htmlTable'']"
  by (simp add: builtinFormatWithOptsIds_def builtinFormats_def)

lemma builtin_ids_distinct: "distinct builtinFormatIds"
  by (simp add: builtinFormatIds_eq)

lemma builtin_id_not_custom: "fid \<in> set builtinFormatIds \<Longrightarrow> \<not> isCustomFormatId fid"
  by (auto simp: builtinFormatIds_eq isCustomFormatId_def startsWith_def)

lemma find_by_id_None:
  "find (\<lambda>format. format_id format = fid) builtinFormats = None \<longleftrightarrow> fid \<notin> set builtinFormatIds"
  by (auto simp: find_None_iff builtinFormatIds_def)

lemma find_by_id_Some:
  assumes "find (\<lambda>format. format_id format = fid) builtinFormats = Some f"
  shows "f \<in> set builtinFormats \<and> format_id f = fid"
  using assms by (auto simp: find_Some_iff in_set_conv_nth)

text \<open>
  C8: \<^verbatim>\<open>isCustomFormatId\<close> holds exactly for the ids that start with \<^verbatim>\<open>custom-\<close>;
  \<^verbatim>\<open>isBuiltinFormatWithOptsId\<close> holds exactly for the ids of the built-in entries that
  declare \<^verbatim>\<open>opts\<close>, which are \<^verbatim>\<open>titleUrl1Line\<close>, \<^verbatim>\<open>json\<close> and
  \<^verbatim>\<open>htmlTable\<close>; \<^verbatim>\<open>isFormatWithOptsId\<close> holds exactly when one of the two does.
  Each is a function of the id alone.
\<close>

theorem format_id_predicates:
  "(isCustomFormatId fid \<longleftrightarrow> (\<exists>rest. fid = ''custom-'' @ rest))
   \<and> (isBuiltinFormatWithOptsId fid \<longleftrightarrow>
        (\<exists>format \<in> set builtinFormats. format_id format = fid \<and> format_opts format \<noteq> None))
   \<and> (isBuiltinFormatWithOptsId fid \<longleftrightarrow> fid \<in> {''titleUrl1Line'', ''json'', ''htmlTable''})
   \<and> (isFormatWithOptsId fid \<longleftrightarrow> isBuiltinFormatWithOptsId fid \<or> isCustomFormatId fid)"
proof -
  have c: "isCustomFormatId fid \<longleftrightarrow> (\<exists>rest. fid = ''custom-'' @ rest)"
    unfolding isCustomFormatId_def by (rule startsWith_iff)
  have b1: "isBuiltinFormatWithOptsId fid \<longleftrightarrow>
        (\<exists>format \<in> set builtinFormats. format_id format = fid \<and> format_opts format \<noteq> None)"
    unfolding isBuiltinFormatWithOptsId_def builtinFormatWithOptsIds_def by auto
  have b2: "isBuiltinFormatWithOptsId fid \<longleftrightarrow> fid \<in> {''titleUrl1Line'', ''json'', ''htmlTable''}"
    unfolding isBuiltinFormatWithOptsId_def builtinFormatWithOptsIds_eq by simp
  have w: "isFormatWithOptsId fid \<longleftrightarrow> isBuiltinFormatWithOptsId fid \<or> isCustomFormatId fid"
    by (simp add: isFormatWithOptsId_def)
  from c b1 b2 w show ?thesis by blast
qed

theorem format_id_predicates_witness:
  "isCustomFormatId ''custom-a1'' \<and> \<not> isCustomFormatId ''Custom-a1'' \<and> \<not> isCustomFormatId ''json''
   \<and> isBuiltinFormatWithOptsId ''json'' \<and> \<not> isBuiltinFormatWithOptsId ''csv''
   \<and> isFormatWithOptsId ''custom-a1'' \<and> isFormatWithOptsId ''htmlTable''
   \<and> \<not> isFormatWithOptsId ''url''"
  using format_id_predicates [of "''custom-a1''"] format_id_predicates [of "''Custom-a1''"]
    format_id_predicates [of "''json''"] format_id_predicates [of "''csv''"]
    format_id_predicates [of "''htmlTable''"] format_id_predicates [of "''url''"]
  by (simp add: builtinFormats_def)

text \<open>
  C1, as the code has it: \<^verbatim>\<open>getFormat\<close> never throws. It returns \<^verbatim>\<open>undefined\<close>
  exactly when the id is neither a built-in id nor starts with \<^verbatim>\<open>custom-\<close>; for a
  built-in id it returns the registry entry with that id, and for an id that starts with
  \<^verbatim>\<open>custom-\<close> it returns the custom-format template.
\<close>

theorem getFormat_returns:
  "(\<exists>r. getFormat fid = Inr r)
   \<and> (getFormat fid = Inr None \<longleftrightarrow> fid \<notin> set builtinFormatIds \<and> \<not> isCustomFormatId fid)
   \<and> (fid \<in> set builtinFormatIds \<longrightarrow>
        (\<exists>format. getFormat fid = Inr (Some (BuiltinFormat format))
           \<and> format \<in> set builtinFormats \<and> format_id format = fid))
   \<and> (isCustomFormatId fid \<longrightarrow> getFormat fid = Inr (Some (CustomFormat customFormat)))"
proof -
  have total: "\<exists>r. getFormat fid = Inr r"
    by (simp add: getFormat_def)
  have none: "getFormat fid = Inr None \<longleftrightarrow> fid \<notin> set builtinFormatIds \<and> \<not> isCustomFormatId fid"
    using builtin_id_not_custom [of fid]
    by (auto simp: getFormat_def find_by_id_None)
  have builtin: "\<exists>format. getFormat fid = Inr (Some (BuiltinFormat format))
           \<and> format \<in> set builtinFormats \<and> format_id format = fid"
    if "fid \<in> set builtinFormatIds"
  proof -
    from that have nc: "\<not> isCustomFormatId fid" by (rule builtin_id_not_custom)
    from that have "find (\<lambda>format. format_id format = fid) builtinFormats \<noteq> None"
      by (simp add: find_by_id_None)
    then obtain f where f: "find (\<lambda>format. format_id format = fid) builtinFormats = Some f"
      by blast
    from find_by_id_Some [OF f] f nc show ?thesis
      by (simp add: getFormat_def)
  qed
  have custom: "getFormat fid = Inr (Some (CustomFormat customFormat))" if "isCustomFormatId fid"
    using that by (simp add: getFormat_def)
  from total none builtin custom show ?thesis by blast
qed

theorem getFormat_returns_witness:
  "getFormat ''json'' = Inr (Some (BuiltinFormat
      \<lparr>format_id = ''json'',
       format_opts = Some (no_opts\<lparr>properties := Some [''title'', ''url''], pretty := Some True,
         indent := Some ''3''\<rparr>)\<rparr>))
   \<and> getFormat ''custom-7f3a'' = Inr (Some (CustomFormat customFormat))
   \<and> getFormat ''pdf'' = Inr None"
proof -
  have j: "''json'' \<in> set builtinFormatIds" by (simp add: builtinFormatIds_eq)
  have c: "isCustomFormatId ''custom-7f3a''" by (simp add: isCustomFormatId_def startsWith_def)
  have p: "''pdf'' \<notin> set builtinFormatIds \<and> \<not> isCustomFormatId ''pdf''"
    by (simp add: builtinFormatIds_eq isCustomFormatId_def startsWith_def)
  from getFormat_returns [of "''json''"] j
  obtain f where f: "getFormat ''json'' = Inr (Some (BuiltinFormat f))"
    "f \<in> set builtinFormats" "format_id f = ''json''" by blast
  from f(2,3) have "f = \<lparr>format_id = ''json'',
       format_opts = Some (no_opts\<lparr>properties := Some [''title'', ''url''], pretty := Some True,
         indent := Some ''3''\<rparr>)\<rparr>"
    by (auto simp: builtinFormats_def DEFAULT_INDENT_SIZE_def)
  with f(1) getFormat_returns [of "''custom-7f3a''"] c getFormat_returns [of "''pdf''"] p
  show ?thesis by simp
qed

text \<open>
  For the unknown id \<^verbatim>\<open>pdf\<close> the call completes normally with \<^verbatim>\<open>undefined\<close>: no
  error is raised.
\<close>

theorem getFormat_unknown_id_counterexample:
  "''pdf'' \<notin> set builtinFormatIds \<and> \<not> isCustomFormatId ''pdf''
   \<and> getFormat ''pdf'' = Inr None \<and> \<not> isl (getFormat ''pdf'')"
  by (simp add: builtinFormatIds_eq isCustomFormatId_def startsWith_def getFormat_def
      builtinFormats_def)

section \<open>The tab callbacks\<close>

lemma replace_all_twice:
  assumes "c \<noteq> d" and "d \<notin> set r"
  shows "replace_all d r' (replace_all c r xs)
    = concat (map (\<lambda>x. if x = c then r else if x = d then r' else [x]) xs)"
proof (induction xs)
  case Nil
  show ?case by simp
next
  case (Cons x xs)
  have r: "replace_all d r' (r @ ys) = r @ replace_all d r' ys" for ys
    using assms(2) by (induction r) auto
  from Cons assms(1) show ?case by (simp add: r)
qed

text \<open>
  C3: for a tab with a url, the text tab callback of \<^verbatim>\<open>titleUrl1Line\<close> returns the title, the
  separator and the url, in this order. The separator is the one of the options, and
  \<^verbatim>\<open>': '\<close> when the options or their separator are missing. A missing title gives
  \<^verbatim>\<open>(untitled)\<close> in its place; the table with \<^verbatim>\<open>title || '(untitled)'\<close> treats an empty title as
  missing too, the other copy of the table keeps it. The witness has the two tabs of the
  claim with the separator \<^verbatim>\<open>' | '\<close>.
\<close>

theorem titleUrl1Line_tab_output:
  assumes "url (tab c) = Some u"
    and "sep = (case os of None \<Rightarrow> '': ''
                | Some opt \<Rightarrow> (case separator opt of None \<Rightarrow> '': '' | Some s \<Rightarrow> s))"
  shows "(\<exists>f. tab_fn (text_t (titleUrl1Line_transforms ext os)) = Some f
            \<and> f c = (case title (tab c) of
                       None \<Rightarrow> ''(untitled)''
                     | Some t \<Rightarrow> if t = [] then ''(untitled)'' else t) @ sep @ u)
       \<and> (\<exists>f. tab_fn (text_t (titleUrl1Line_transforms_part002 ext os)) = Some f
            \<and> f c = (case title (tab c) of None \<Rightarrow> ''(untitled)'' | Some t \<Rightarrow> t) @ sep @ u)"
  using assms
  by (simp add: titleUrl1Line_transforms_def titleUrl1Line_transforms_part002_def no_transform_def
      getTitleUrlText_def getTitleUrlText_part002_def opts_separator_def js_or_str_def
      DEFAULT_TITLE_URL_1_LINE_SEPARATOR_def split: option.splits)

theorem titleUrl1Line_tab_output_witness:
  "(\<exists>f. tab_fn (text_t (titleUrl1Line_transforms sample_externals (Some (no_opts\<lparr>separator := Some '' | ''\<rparr>))))
          = Some f
      \<and> f \<lparr>tab = \<lparr>title = Some ''Example'', url = Some ''http://x'', favIconUrl = None\<rparr>,
            globalSeq = 1, windowTabSeq = None, windowSeq = None\<rparr> = ''Example | http://x''
      \<and> f \<lparr>tab = \<lparr>title = None, url = Some ''http://x'', favIconUrl = None\<rparr>,
            globalSeq = 1, windowTabSeq = None, windowSeq = None\<rparr> = ''(untitled) | http://x'')
   \<and> (\<exists>f. tab_fn (text_t (titleUrl1Line_transforms_part002 sample_externals None)) = Some f
      \<and> f \<lparr>tab = \<lparr>title = Some ''Example'', url = Some ''http://x'', favIconUrl = None\<rparr>,
            globalSeq = 1, windowTabSeq = None, windowSeq = None\<rparr> = ''Example: http://x'')"
  using
    titleUrl1Line_tab_output [of
      "\<lparr>tab = \<lparr>title = Some ''Example'', url = Some ''http://x'', favIconUrl = None\<rparr>,
        globalSeq = 1, windowTabSeq = None, windowSeq = None\<rparr>"
      "''http://x''" "'' | ''" "Some (no_opts\<lparr>separator := Some '' | ''\<rparr>)" sample_externals]
    titleUrl1Line_tab_output [of
      "\<lparr>tab = \<lparr>title = None, url = Some ''http://x'', favIconUrl = None\<rparr>,
        globalSeq = 1, windowTabSeq = None, windowSeq = None\<rparr>"
      "''http://x''" "'' | ''" "Some (no_opts\<lparr>separator := Some '' | ''\<rparr>)" sample_externals]
    titleUrl1Line_tab_output [of
      "\<lparr>tab = \<lparr>title = Some ''Example'', url = Some ''http://x'', favIconUrl = None\<rparr>,
        globalSeq = 1, windowTabSeq = None, windowSeq = None\<rparr>"
      "''http://x''" "'': ''" None sample_externals]
  by (auto simp: no_opts_def)

text \<open>
  C7: for a tab with a url and for any options, the text tab callback of
  \<^verbatim>\<open>titleUrl2Line\<close> returns the title (or \<^verbatim>\<open>(untitled)\<close> when the tab has no title or an
  empty one), a newline and the url: the separator of the options is not used.
\<close>

theorem titleUrl2Line_tab_output:
  assumes "url (tab c) = Some u"
  shows "\<exists>f. tab_fn (text_t (titleUrl2Line_transforms ext os)) = Some f
           \<and> f c = (case title (tab c) of
                      None \<Rightarrow> ''(untitled)''
                    | Some t \<Rightarrow> if t = [] then ''(untitled)'' else t) @ ''\<newline>'' @ u"
  using assms
  by (simp add: titleUrl2Line_transforms_def no_transform_def getTitleUrlText_def js_or_str_def
      split: option.splits)

theorem titleUrl2Line_tab_output_witness:
  "\<exists>f. tab_fn (text_t (titleUrl2Line_transforms sample_externals (Some (no_opts\<lparr>separator := Some '' | ''\<rparr>))))
          = Some f
      \<and> f \<lparr>tab = \<lparr>title = Some ''Example'', url = Some ''http://x'', favIconUrl = None\<rparr>,
            globalSeq = 1, windowTabSeq = None, windowSeq = None\<rparr> = ''Example\<newline>http://x''"
  using
    titleUrl2Line_tab_output [of
      "\<lparr>tab = \<lparr>title = Some ''Example'', url = Some ''http://x'', favIconUrl = None\<rparr>,
        globalSeq = 1, windowTabSeq = None, windowSeq = None\<rparr>"
      "''http://x''" sample_externals "Some (no_opts\<lparr>separator := Some '' | ''\<rparr>)"]
  by simp

text \<open>
  C4: for a tab with a url (the app guarantees that every tab it hands to a format has
  one), the text tab callback of \<^verbatim>\<open>markdown\<close> returns \<^verbatim>\<open>[T](U)\<close>, where T is the title (the url
  when the tab has no title or an empty one) with a backslash put before every \<^verbatim>\<open>[\<close> and
  every \<^verbatim>\<open>]\<close> and nothing else changed, and U is the url with a backslash put before every
  \<^verbatim>\<open>(\<close> and every \<^verbatim>\<open>)\<close> and nothing else changed.
\<close>

theorem markdown_tab_output:
  assumes "url (tab c) = Some u"
  shows "markdown_tab c =
    Inr (''[''
         @ concat (map (\<lambda>x. if x = CHR ''['' then [CHR 0x5C, CHR ''['']
                             else if x = CHR '']'' then [CHR 0x5C, CHR '']''] else [x])
             (case title (tab c) of None \<Rightarrow> u | Some t \<Rightarrow> if t = [] then u else t))
         @ ''](''
         @ concat (map (\<lambda>x. if x = CHR ''('' then [CHR 0x5C, CHR ''('']
                             else if x = CHR '')'' then [CHR 0x5C, CHR '')''] else [x]) u)
         @ '')'')"
proof -
  have br: "replace_all CHR '']'' [CHR 0x5C, CHR '']''] (replace_all CHR ''['' [CHR 0x5C, CHR ''[''] s)
      = concat (map (\<lambda>x. if x = CHR ''['' then [CHR 0x5C, CHR ''['']
                          else if x = CHR '']'' then [CHR 0x5C, CHR '']''] else [x]) s)" for s
    by (rule replace_all_twice) simp_all
  have pa: "replace_all CHR '')'' [CHR 0x5C, CHR '')''] (replace_all CHR ''('' [CHR 0x5C, CHR ''(''] s)
      = concat (map (\<lambda>x. if x = CHR ''('' then [CHR 0x5C, CHR ''('']
                          else if x = CHR '')'' then [CHR 0x5C, CHR '')''] else [x]) s)" for s
    by (rule replace_all_twice) simp_all
  show ?thesis
    using assms unfolding markdown_tab_def br pa
    by (simp add: js_or_def split: option.splits)
qed

theorem markdown_tab_output_witness:
  "markdown_tab \<lparr>tab = \<lparr>title = Some ''a[1] (b)'', url = Some ''http://x/(y)[z]'', favIconUrl = None\<rparr>,
       globalSeq = 1, windowTabSeq = None, windowSeq = None\<rparr>
     = Inr (''[a'' @ [CHR 0x5C] @ ''[1'' @ [CHR 0x5C] @ ''] (b)](http://x/'' @ [CHR 0x5C] @ ''(y''
            @ [CHR 0x5C] @ '')[z])'')"
  using markdown_tab_output [of
      "\<lparr>tab = \<lparr>title = Some ''a[1] (b)'', url = Some ''http://x/(y)[z]'', favIconUrl = None\<rparr>,
        globalSeq = 1, windowTabSeq = None, windowSeq = None\<rparr>" "''http://x/(y)[z]''"]
  by simp

text \<open>
  Outside that guarantee, on a tab without a url, the callback throws: \<^verbatim>\<open>replace\<close> is
  called on \<^verbatim>\<open>undefined\<close>.
\<close>

lemma markdown_tab_without_url:
  "markdown_tab \<lparr>tab = \<lparr>title = Some ''T'', url = None, favIconUrl = None\<rparr>,
       globalSeq = 1, windowTabSeq = None, windowSeq = None\<rparr> = Inl TypeError"
  by (simp add: markdown_tab_def js_or_def)

lemma spread_property_set:
  "(k', v) \<in> set (spread_property k p sel) \<longleftrightarrow> k' = k \<and> p = Some v \<and> v \<noteq> [] \<and> sel"
  by (auto simp: spread_property_def split: option.splits)

lemma json_selected_iff:
  "json_selected os k \<longleftrightarrow>
    (case os of
       None \<Rightarrow> True
     | Some opt \<Rightarrow> (case properties opt of None \<Rightarrow> True | Some ps \<Rightarrow> ps = [] \<or> k \<in> set ps))"
  by (simp add: json_selected_def json_noProperties_def split: option.splits)

lemma three_properties_set:
  "(k, v) \<in> set (spread_property kt pt (S kt) @ spread_property ku pu (S ku)
                   @ spread_property kf pf (S kf))
   \<longleftrightarrow> v \<noteq> [] \<and> (k = kt \<and> pt = Some v \<or> k = ku \<and> pu = Some v \<or> k = kf \<and> pf = Some v) \<and> S k"
  unfolding set_append Un_iff spread_property_set by blast

lemma json_tab_object_set:
  "(k, v) \<in> set (json_tab_object os c) \<longleftrightarrow>
      v \<noteq> []
      \<and> (k = ''title'' \<and> title (tab c) = Some v
          \<or> k = ''url'' \<and> url (tab c) = Some v
          \<or> k = ''favIconUrl'' \<and> favIconUrl (tab c) = Some v)
      \<and> (case os of
            None \<Rightarrow> True
          | Some opt \<Rightarrow>
              (case properties opt of None \<Rightarrow> True | Some ps \<Rightarrow> ps = [] \<or> k \<in> set ps))"
  unfolding json_tab_object_def
  by (subst three_properties_set [where S = "json_selected os"]) (simp only: json_selected_iff)

lemma json_default_selection:
  assumes "properties opt = Some [''title'', ''url'']"
  shows "''favIconUrl'' \<notin> fst ` set (json_tab_object (Some opt) c)"
proof
  assume "''favIconUrl'' \<in> fst ` set (json_tab_object (Some opt) c)"
  then obtain w where "(''favIconUrl'', w) \<in> set (json_tab_object (Some opt) c)" by auto
  then show False
    unfolding json_tab_object_set using assms by simp
qed

text \<open>
  C6, as the code has it: the object that the tab callback of \<^verbatim>\<open>json\<close> serialises has a
  property \<^verbatim>\<open>title\<close>, \<^verbatim>\<open>url\<close> or \<^verbatim>\<open>favIconUrl\<close> with value \<open>v\<close> exactly when the
  tab has this property with the non-empty value \<open>v\<close> and either the options, their
  \<^verbatim>\<open>properties\<close> or its elements are missing (then every property is selected), or
  \<^verbatim>\<open>properties\<close> lists the property. With the declared default
  \<^verbatim>\<open>['title', 'url']\<close> the object never has \<^verbatim>\<open>favIconUrl\<close>.
\<close>

theorem json_tab_properties:
  "((k, v) \<in> set (json_tab_object os c) \<longleftrightarrow>
      v \<noteq> []
      \<and> (k = ''title'' \<and> title (tab c) = Some v
          \<or> k = ''url'' \<and> url (tab c) = Some v
          \<or> k = ''favIconUrl'' \<and> favIconUrl (tab c) = Some v)
      \<and> (case os of
            None \<Rightarrow> True
          | Some opt \<Rightarrow>
              (case properties opt of None \<Rightarrow> True | Some ps \<Rightarrow> ps = [] \<or> k \<in> set ps)))
   \<and> (\<forall>opt. os = Some opt \<and> properties opt = Some [''title'', ''url'']
         \<longrightarrow> ''favIconUrl'' \<notin> fst ` set (json_tab_object os c))"
proof (intro conjI allI impI)
  show "(k, v) \<in> set (json_tab_object os c) \<longleftrightarrow>
      v \<noteq> []
      \<and> (k = ''title'' \<and> title (tab c) = Some v
          \<or> k = ''url'' \<and> url (tab c) = Some v
          \<or> k = ''favIconUrl'' \<and> favIconUrl (tab c) = Some v)
      \<and> (case os of
            None \<Rightarrow> True
          | Some opt \<Rightarrow>
              (case properties opt of None \<Rightarrow> True | Some ps \<Rightarrow> ps = [] \<or> k \<in> set ps))"
    by (rule json_tab_object_set)
next
  fix opt
  assume "os = Some opt \<and> properties opt = Some [''title'', ''url'']"
  then show "''favIconUrl'' \<notin> fst ` set (json_tab_object os c)"
    using json_default_selection [of opt c] by simp
qed

theorem json_tab_properties_witness:
  "json_tab_object (Some (no_opts\<lparr>properties := Some [''title'', ''url'']\<rparr>))
     \<lparr>tab = \<lparr>title = Some ''T'', url = Some ''http://x'', favIconUrl = Some ''http://x/i.png''\<rparr>,
      globalSeq = 1, windowTabSeq = None, windowSeq = None\<rparr>
     = [(''title'', ''T''), (''url'', ''http://x'')]
   \<and> ''favIconUrl'' \<notin> fst ` set
       (json_tab_object (Some (no_opts\<lparr>properties := Some [''title'', ''url'']\<rparr>))
          \<lparr>tab = \<lparr>title = Some ''T'', url = Some ''http://x'', favIconUrl = Some ''http://x/i.png''\<rparr>,
           globalSeq = 1, windowTabSeq = None, windowSeq = None\<rparr>)"
proof -
  have e: "json_tab_object (Some (no_opts\<lparr>properties := Some [''title'', ''url'']\<rparr>))
     \<lparr>tab = \<lparr>title = Some ''T'', url = Some ''http://x'', favIconUrl = Some ''http://x/i.png''\<rparr>,
      globalSeq = 1, windowTabSeq = None, windowSeq = None\<rparr>
     = [(''title'', ''T''), (''url'', ''http://x'')]"
    by (simp add: json_tab_object_def spread_property_def json_selected_def json_noProperties_def
        no_opts_def)
  have p: "properties (no_opts\<lparr>properties := Some [''title'', ''url'']\<rparr>) = Some [''title'', ''url'']"
    by simp
  from json_tab_properties [of "''title''" "''T''"
      "Some (no_opts\<lparr>properties := Some [''title'', ''url'']\<rparr>)"
      "\<lparr>tab = \<lparr>title = Some ''T'', url = Some ''http://x'', favIconUrl = Some ''http://x/i.png''\<rparr>,
        globalSeq = 1, windowTabSeq = None, windowSeq = None\<rparr>"]
  have "\<forall>opt. Some (no_opts\<lparr>properties := Some [''title'', ''url'']\<rparr>) = Some opt
          \<and> properties opt = Some [''title'', ''url'']
         \<longrightarrow> ''favIconUrl'' \<notin> fst ` set
       (json_tab_object (Some (no_opts\<lparr>properties := Some [''title'', ''url'']\<rparr>))
          \<lparr>tab = \<lparr>title = Some ''T'', url = Some ''http://x'', favIconUrl = Some ''http://x/i.png''\<rparr>,
           globalSeq = 1, windowTabSeq = None, windowSeq = None\<rparr>)"
    by (rule conjunct2)
  with p have "''favIconUrl'' \<notin> fst ` set
       (json_tab_object (Some (no_opts\<lparr>properties := Some [''title'', ''url'']\<rparr>))
          \<lparr>tab = \<lparr>title = Some ''T'', url = Some ''http://x'', favIconUrl = Some ''http://x/i.png''\<rparr>,
           globalSeq = 1, windowTabSeq = None, windowSeq = None\<rparr>)"
    by (elim allE [where x = "no_opts\<lparr>properties := Some [''title'', ''url'']\<rparr>"]) simp
  with e show ?thesis by (rule conjI)
qed

text \<open>
  With an empty \<^verbatim>\<open>properties\<close> list the object has the title, although the list does not
  select it; and with no options at all it has \<^verbatim>\<open>favIconUrl\<close> too.
\<close>

theorem json_empty_selection_counterexample:
  "json_tab_object (Some (no_opts\<lparr>properties := Some []\<rparr>))
     \<lparr>tab = \<lparr>title = Some ''T'', url = Some ''http://x'', favIconUrl = Some ''http://x/i.png''\<rparr>,
      globalSeq = 1, windowTabSeq = None, windowSeq = None\<rparr>
     = [(''title'', ''T''), (''url'', ''http://x''), (''favIconUrl'', ''http://x/i.png'')]
   \<and> ''title'' \<notin> set []
   \<and> json_tab_object None
     \<lparr>tab = \<lparr>title = Some ''T'', url = Some ''http://x'', favIconUrl = Some ''http://x/i.png''\<rparr>,
      globalSeq = 1, windowTabSeq = None, windowSeq = None\<rparr>
     = [(''title'', ''T''), (''url'', ''http://x''), (''favIconUrl'', ''http://x/i.png'')]"
  by (simp add: json_tab_object_def spread_property_def json_selected_def json_noProperties_def
      no_opts_def)

text \<open>
  C10: \<^verbatim>\<open>getAnchorTagHtml\<close> returns the empty string for a tab whose url is missing or
  empty. Otherwise it returns an anchor whose \<^verbatim>\<open>href\<close> is the url and whose text is the
  result of \<^verbatim>\<open>encodeHtml\<close> on the title, or on the url when the tab has no title or an
  empty one; the title reaches the output through \<^verbatim>\<open>encodeHtml\<close> only. The html tab
  callbacks of \<^verbatim>\<open>link\<close> and \<^verbatim>\<open>htmlTable\<close> (and the text one of \<^verbatim>\<open>htmlTable\<close>) are
  this function, so they return a string for every tab.
\<close>

theorem anchor_tag_html:
  "(url t = None \<or> url t = Some [] \<longrightarrow> getAnchorTagHtml ext t = [])
   \<and> (\<forall>u. url t = Some u \<and> u \<noteq> [] \<longrightarrow>
         getAnchorTagHtml ext t =
           ''<a href='' @ [CHR 0x22] @ u @ [CHR 0x22] @ ''>''
             @ encodeHtml ext (case title t of None \<Rightarrow> u | Some s \<Rightarrow> if s = [] then u else s)
             @ ''</a>'')
   \<and> tab_fn (link_html ext) = Some (\<lambda>c. getAnchorTagHtml ext (tab c))
   \<and> (\<exists>h. html_t (htmlTable_transforms ext os) = Some h
         \<and> tab_fn h = Some (\<lambda>c. getAnchorTagHtml ext (tab c)))
   \<and> tab_fn (text_t (htmlTable_transforms ext os)) = Some (\<lambda>c. getAnchorTagHtml ext (tab c))"
  by (auto simp: getAnchorTagHtml_def js_or_str_def link_html_def htmlTable_transforms_def
      no_transform_def split: option.splits)

theorem anchor_tag_html_witness:
  "getAnchorTagHtml sample_externals \<lparr>title = Some ''a<b'', url = None, favIconUrl = None\<rparr> = []
   \<and> getAnchorTagHtml sample_externals \<lparr>title = Some ''a<b'', url = Some [], favIconUrl = None\<rparr> = []
   \<and> getAnchorTagHtml sample_externals \<lparr>title = Some ''a<b'', url = Some ''http://x'', favIconUrl = None\<rparr>
       = ''<a href='' @ [CHR 0x22] @ ''http://x'' @ [CHR 0x22] @ ''>'' @ ''a&lt;b''
           @ ''</a>''
   \<and> getAnchorTagHtml sample_externals \<lparr>title = None, url = Some ''http://x'', favIconUrl = None\<rparr>
       = ''<a href='' @ [CHR 0x22] @ ''http://x'' @ [CHR 0x22] @ ''>'' @ ''http://x''
           @ ''</a>''"
  using
    anchor_tag_html [of "\<lparr>title = Some ''a<b'', url = None, favIconUrl = None\<rparr>" sample_externals]
    anchor_tag_html [of "\<lparr>title = Some ''a<b'', url = Some [], favIconUrl = None\<rparr>" sample_externals]
    anchor_tag_html [of "\<lparr>title = Some ''a<b'', url = Some ''http://x'', favIconUrl = None\<rparr>" sample_externals]
    anchor_tag_html [of "\<lparr>title = None, url = Some ''http://x'', favIconUrl = None\<rparr>" sample_externals]
  by (simp add: sample_externals_def)

section \<open>The delimiters of a rendering\<close>

subsection \<open>Counting the delimiters\<close>

lemma count_append:
  "count_fragments p (xs @ ys) = count_fragments p xs + count_fragments p ys"
  by (simp add: count_fragments_def)

lemma count_join:
  "count_fragments p (join_blocks d bs)
    = sum_list (map (count_fragments p) bs) + (length bs - 1) * count_fragments p d"
  by (induction d bs rule: join_blocks.induct) (simp_all add: count_append count_fragments_def)

lemma count_concat:
  "count_fragments p (concat bs) = sum_list (map (count_fragments p) bs)"
  by (induction bs) (simp_all add: count_append count_fragments_def)

lemma count_tab_blocks:
  assumes "\<And>s. \<not> p (FTab s)"
  shows "sum_list (map (count_fragments p) (map (\<lambda>(i, t). [FTab (g i t)]) xs)) = 0"
  using assms by (induction xs) (auto simp: count_fragments_def)

lemma count_render_tabs_tab_delimiter:
  "count_fragments is_tab_delimiter (render_tabs tt sc wseq before ts) = length ts - 1"
  unfolding render_tabs_def count_join
  by (subst count_tab_blocks) (simp_all add: count_fragments_def)

lemma count_render_tabs_window_delimiter:
  "count_fragments is_window_delimiter (render_tabs tt sc wseq before ts) = 0"
  unfolding render_tabs_def count_join
  by (subst count_tab_blocks) (simp_all add: count_fragments_def)

lemma count_window_block_tab_delimiter:
  "count_fragments is_tab_delimiter (window_block tt sc wseq before w) = length (tabs w) - 1"
  unfolding window_block_def count_append count_render_tabs_tab_delimiter
  by (simp add: count_fragments_def)

lemma count_window_block_window_delimiter:
  "count_fragments is_window_delimiter (window_block tt sc wseq before w) = 0"
  unfolding window_block_def count_append count_render_tabs_window_delimiter
  by (simp add: count_fragments_def)

lemma length_window_blocks: "length (window_blocks tt sc wseq before ws) = length ws"
  by (induction ws arbitrary: wseq before) simp_all

lemma sum_window_blocks_tab_delimiter:
  "sum_list (map (count_fragments is_tab_delimiter) (window_blocks tt sc wseq before ws))
    = (\<Sum>w\<leftarrow>ws. length (tabs w) - 1)"
  by (induction ws arbitrary: wseq before) (simp_all add: count_window_block_tab_delimiter)

lemma sum_window_blocks_window_delimiter:
  "sum_list (map (count_fragments is_window_delimiter) (window_blocks tt sc wseq before ws)) = 0"
  by (induction ws arbitrary: wseq before) (simp_all add: count_window_block_window_delimiter)

lemma count_render_tab_delimiter:
  "count_fragments is_tab_delimiter (render_fragments tt sc fname ws)
    = (\<Sum>w\<leftarrow>ws. length (tabs w) - 1)"
  unfolding render_fragments_def count_append
  by (simp add: count_join count_concat sum_window_blocks_tab_delimiter)
     (simp add: count_fragments_def)

lemma count_render_window_delimiter:
  "count_fragments is_window_delimiter (render_fragments tt sc fname ws)
    = (if sc = WindowsScope then length ws - 1 else 0)"
  unfolding render_fragments_def count_append
  by (simp add: count_join count_concat sum_window_blocks_window_delimiter length_window_blocks
        window_boundaries_def)
     (simp add: count_fragments_def)

lemma tabs_minus_windows:
  assumes "\<forall>w\<in>set ws. tabs w \<noteq> []"
  shows "(\<Sum>w\<leftarrow>ws. length (tabs w) - 1) + length ws = total_tabs ws"
  using assms
proof (induction ws)
  case Nil
  show ?case by (simp add: total_tabs_def)
next
  case (Cons w ws)
  then obtain n where w: "length (tabs w) = Suc n" by (cases "tabs w") auto
  from Cons have ih: "(\<Sum>w\<leftarrow>ws. length (tabs w) - 1) + length ws = total_tabs ws" by simp
  have "total_tabs (w # ws) = length (tabs w) + total_tabs ws"
    by (simp add: total_tabs_def)
  with w ih show ?case by simp
qed

subsection \<open>The neighbours of a delimiter\<close>

lemma join_Cons_hd:
  "b \<noteq> [] \<Longrightarrow> join_blocks d (b # bs) \<noteq> [] \<and> hd (join_blocks d (b # bs)) = hd b"
  by (cases bs) auto

lemma last_join:
  assumes "bs \<noteq> []" and "\<forall>b\<in>set bs. b \<noteq> []"
  shows "last (join_blocks d bs) = last (last bs)"
  using assms
proof (induction bs rule: induct_list012)
  case 1
  then show ?case by simp
next
  case (2 x)
  then show ?case by simp
next
  case (3 x y zs)
  then have "y \<noteq> []" by simp
  then have "join_blocks d (y # zs) \<noteq> []" by (simp add: join_Cons_hd)
  with 3 show ?case by simp
qed

lemma join_edges:
  assumes "\<forall>b\<in>set bs. b \<noteq> [] \<and> P (hd b) \<and> P (last b)"
  shows "join_blocks d bs = [] \<or> P (hd (join_blocks d bs)) \<and> P (last (join_blocks d bs))"
proof (cases bs)
  case Nil
  then show ?thesis by simp
next
  case (Cons b bs')
  with assms have b: "b \<noteq> []" "P (hd b)" by simp_all
  have "last bs \<in> set bs" using Cons by simp
  with assms have l: "P (last (last bs))" by blast
  from assms have ne: "\<forall>b\<in>set bs. b \<noteq> []" by blast
  have "bs \<noteq> []" using Cons by simp
  from last_join [OF this ne] l have "P (last (join_blocks d bs))" by simp
  moreover from join_Cons_hd [OF b(1)] b(2) Cons have "P (hd (join_blocks d bs))" by simp
  ultimately show ?thesis by simp
qed

lemma successively_join:
  assumes "\<forall>b\<in>set bs. b \<noteq> [] \<and> successively R b \<and> R (last b) d \<and> R d (hd b)"
  shows "successively R (join_blocks [d] bs)"
  using assms
proof (induction bs rule: induct_list012)
  case 1
  show ?case by simp
next
  case (2 x)
  then show ?case by simp
next
  case (3 x y zs)
  then have y: "y \<noteq> []" and ih: "successively R (join_blocks [d] (y # zs))" by simp_all
  from join_Cons_hd [OF y] have j: "join_blocks [d] (y # zs) \<noteq> []"
    "hd (join_blocks [d] (y # zs)) = hd y" by simp_all
  from 3 have x: "x \<noteq> []" "successively R x" "R (last x) d" and dy: "R d (hd y)" by simp_all
  from x dy ih j show ?case
    by (simp add: successively_append_iff successively_Cons)
qed

lemma successively_concat:
  assumes "\<forall>b\<in>set bs. successively R b \<and> (b = [] \<or> P (hd b) \<and> P (last b))"
    and "\<And>x y. P x \<Longrightarrow> P y \<Longrightarrow> R x y"
  shows "successively R (concat bs)
    \<and> (concat bs = [] \<or> P (hd (concat bs)) \<and> P (last (concat bs)))"
  using assms(1)
proof (induction bs)
  case Nil
  show ?case by simp
next
  case (Cons b bs)
  define cs where "cs = concat bs"
  from Cons.prems have "\<forall>b\<in>set bs. successively R b \<and> (b = [] \<or> P (hd b) \<and> P (last b))"
    by simp
  from Cons.IH [OF this] have ih: "successively R cs" "cs = [] \<or> P (hd cs) \<and> P (last cs)"
    unfolding cs_def by blast+
  from Cons.prems have b: "successively R b" "b = [] \<or> P (hd b) \<and> P (last b)"
    by simp_all
  have "successively R (b @ cs) \<and> (b @ cs = [] \<or> P (hd (b @ cs)) \<and> P (last (b @ cs)))"
  proof (cases "b = []")
    case True
    with ih show ?thesis by simp
  next
    case False
    with b have pb: "P (hd b)" "P (last b)" by simp_all
    show ?thesis
    proof (cases "cs = []")
      case True
      with b pb False show ?thesis by simp
    next
      case c: False
      with ih have "P (hd cs)" "P (last cs)" by simp_all
      with pb b ih False c assms(2) show ?thesis
        by (simp add: successively_append_iff)
    qed
  qed
  then show ?case unfolding cs_def by (simp only: concat.simps)
qed

lemma tab_blocks_shape:
  "\<forall>b\<in>set (map (\<lambda>(i, t). [FTab (g i t)]) xs).
     b \<noteq> [] \<and> successively well_placed b \<and> well_placed (last b) (FTabDelimiter d)
     \<and> well_placed (FTabDelimiter d) (hd b)"
  by (auto simp: well_placed_def)

lemma tab_blocks_edges:
  "\<forall>b\<in>set (map (\<lambda>(i, t). [FTab (g i t)]) xs).
     b \<noteq> [] \<and> is_tab_output (hd b) \<and> is_tab_output (last b)"
  by auto

lemma render_tabs_well_placed:
  "successively well_placed (render_tabs tt sc wseq before ts)"
  unfolding render_tabs_def by (rule successively_join) (rule tab_blocks_shape)

lemma render_tabs_edges:
  "render_tabs tt sc wseq before ts = []
   \<or> is_tab_output (hd (render_tabs tt sc wseq before ts))
     \<and> is_tab_output (last (render_tabs tt sc wseq before ts))"
  unfolding render_tabs_def by (rule join_edges) (rule tab_blocks_edges)

lemma tab_output_no_delimiter:
  "is_tab_output f \<Longrightarrow> \<not> is_tab_delimiter f \<and> \<not> is_window_delimiter f"
  by (cases f) simp_all

lemma window_block_well_placed:
  "successively well_placed (window_block tt sc wseq before w)"
proof -
  let ?ts = "render_tabs tt sc wseq before (tabs w)"
  have e: "?ts = [] \<or> is_tab_output (hd ?ts) \<and> is_tab_output (last ?ts)"
    by (rule render_tabs_edges)
  have s: "successively well_placed ?ts" by (rule render_tabs_well_placed)
  show ?thesis
  proof (cases "?ts = []")
    case True
    then show ?thesis
      by (simp add: window_block_def well_placed_def)
  next
    case False
    with e have "is_tab_output (hd ?ts)" "is_tab_output (last ?ts)" by simp_all
    then have "\<not> is_tab_delimiter (hd ?ts)" "\<not> is_window_delimiter (hd ?ts)"
      "\<not> is_tab_delimiter (last ?ts)" "\<not> is_window_delimiter (last ?ts)"
      by (simp_all add: tab_output_no_delimiter)
    with s False show ?thesis
      by (simp add: window_block_def successively_append_iff successively_Cons well_placed_def)
  qed
qed

lemma window_block_edges_windows:
  "window_block tt WindowsScope wseq before w \<noteq> []
   \<and> is_window_start (hd (window_block tt WindowsScope wseq before w))
   \<and> is_window_end (last (window_block tt WindowsScope wseq before w))"
  by (simp add: window_block_def window_boundaries_def)

lemma window_block_edges_tabs:
  assumes "sc \<noteq> WindowsScope"
  shows "window_block tt sc wseq before w = []
   \<or> is_tab_output (hd (window_block tt sc wseq before w))
     \<and> is_tab_output (last (window_block tt sc wseq before w))"
  using assms render_tabs_edges [of tt sc wseq before "tabs w"]
  by (simp add: window_block_def window_boundaries_def)

lemma window_blocks_members:
  "b \<in> set (window_blocks tt sc wseq before ws)
    \<Longrightarrow> \<exists>n m w. b = window_block tt sc n m w"
  by (induction ws arbitrary: wseq before) auto

lemma window_edge_no_delimiter:
  "is_window_start f \<or> is_window_end f \<Longrightarrow> \<not> is_tab_delimiter f \<and> \<not> is_window_delimiter f"
  by (cases f) simp_all

lemma windows_blocks_edges:
  assumes "b \<in> set (window_blocks tt WindowsScope wseq before ws)"
  shows "b \<noteq> [] \<and> (\<not> is_tab_delimiter (hd b) \<and> \<not> is_window_delimiter (hd b))
     \<and> (\<not> is_tab_delimiter (last b) \<and> \<not> is_window_delimiter (last b))"
proof -
  from window_blocks_members [OF assms] obtain n m w
    where b: "b = window_block tt WindowsScope n m w" by blast
  from window_block_edges_windows [of tt n m w] b
  have e: "b \<noteq> []" "is_window_start (hd b)" "is_window_end (last b)" by simp_all
  with window_edge_no_delimiter [of "hd b"] window_edge_no_delimiter [of "last b"]
  show ?thesis by simp
qed

lemma windows_blocks_shape:
  assumes "b \<in> set (window_blocks tt WindowsScope wseq before ws)"
  shows "b \<noteq> [] \<and> successively well_placed b \<and> well_placed (last b) (FWindowDelimiter d)
     \<and> well_placed (FWindowDelimiter d) (hd b)"
proof -
  from window_blocks_members [OF assms] obtain n m w
    where b: "b = window_block tt WindowsScope n m w" by blast
  from window_block_edges_windows [of tt n m w] b
  have e: "b \<noteq> []" "is_window_start (hd b)" "is_window_end (last b)" by simp_all
  from windows_blocks_edges [OF assms]
  have nd: "\<not> is_tab_delimiter (hd b)" "\<not> is_window_delimiter (hd b)"
    "\<not> is_tab_delimiter (last b)" "\<not> is_window_delimiter (last b)" by simp_all
  have l: "well_placed (last b) (FWindowDelimiter d)"
    using e nd by (simp add: well_placed_def)
  have h: "well_placed (FWindowDelimiter d) (hd b)"
    using e nd by (simp add: well_placed_def)
  have "successively well_placed b"
    unfolding b by (rule window_block_well_placed)
  with e(1) l h show ?thesis by blast
qed

lemma tabs_blocks_shape:
  assumes "sc \<noteq> WindowsScope" and "b \<in> set (window_blocks tt sc wseq before ws)"
  shows "successively well_placed b \<and> (b = [] \<or> is_tab_output (hd b) \<and> is_tab_output (last b))"
proof -
  from window_blocks_members [OF assms(2)] obtain n m w
    where b: "b = window_block tt sc n m w" by blast
  show ?thesis
    unfolding b using window_block_well_placed window_block_edges_tabs [OF assms(1)] by blast
qed

lemma wrapped_shape:
  assumes "successively well_placed body"
    and "body = [] \<or> (\<not> is_tab_delimiter (hd body) \<and> \<not> is_window_delimiter (hd body))
           \<and> (\<not> is_tab_delimiter (last body) \<and> \<not> is_window_delimiter (last body))"
  shows "successively well_placed ([FStart s] @ body @ [FEnd e])"
  using assms
  by (cases "body = []")
     (simp_all add: successively_append_iff successively_Cons well_placed_def)

lemma render_fragments_shape:
  "successively well_placed (render_fragments tt sc fname ws)
   \<and> (render_fragments tt sc fname ws = []
      \<or> (\<not> is_tab_delimiter (hd (render_fragments tt sc fname ws))
          \<and> \<not> is_window_delimiter (hd (render_fragments tt sc fname ws)))
        \<and> (\<not> is_tab_delimiter (last (render_fragments tt sc fname ws))
          \<and> \<not> is_window_delimiter (last (render_fragments tt sc fname ws))))"
proof (cases "sc = WindowsScope")
  case True
  let ?J = "join_blocks [FWindowDelimiter (delimiter_text (windowDelimiter tt))]
              (window_blocks tt WindowsScope 1 0 ws)"
  have s: "successively well_placed ?J"
    by (rule successively_join) (use windows_blocks_shape in blast)
  have e: "?J = [] \<or> (\<not> is_tab_delimiter (hd ?J) \<and> \<not> is_window_delimiter (hd ?J))
           \<and> (\<not> is_tab_delimiter (last ?J) \<and> \<not> is_window_delimiter (last ?J))"
    by (rule join_edges) (use windows_blocks_edges in blast)
  from wrapped_shape [OF s e] True show ?thesis
    by (simp add: render_fragments_def window_boundaries_def)
next
  case False
  let ?C = "concat (window_blocks tt sc 1 0 ws)"
  have "successively well_placed ?C
    \<and> (?C = [] \<or> is_tab_output (hd ?C) \<and> is_tab_output (last ?C))"
  proof (rule successively_concat)
    show "\<forall>b\<in>set (window_blocks tt sc 1 0 ws).
       successively well_placed b \<and> (b = [] \<or> is_tab_output (hd b) \<and> is_tab_output (last b))"
      using tabs_blocks_shape [OF False] by blast
  next
    fix x y
    assume "is_tab_output x" "is_tab_output y"
    then show "well_placed x y"
      using tab_output_no_delimiter [of x] tab_output_no_delimiter [of y]
      by (simp add: well_placed_def)
  qed
  then have s: "successively well_placed ?C"
    and e: "?C = [] \<or> (\<not> is_tab_delimiter (hd ?C) \<and> \<not> is_window_delimiter (hd ?C))
           \<and> (\<not> is_tab_delimiter (last ?C) \<and> \<not> is_window_delimiter (last ?C))"
    using tab_output_no_delimiter [of "hd ?C"] tab_output_no_delimiter [of "last ?C"]
    by blast+
  show ?thesis
  proof (cases "sc = TabScope")
    case True
    with s e show ?thesis
      by (simp add: render_fragments_def window_boundaries_def del: concat_eq_Nil_conv)
  next
    case t: False
    from wrapped_shape [OF s e] False t show ?thesis
      by (simp add: render_fragments_def window_boundaries_def del: concat_eq_Nil_conv)
  qed
qed

subsection \<open>The text of the delimiters and the blocks of the windows\<close>

lemma set_join:
  "set (join_blocks d bs) \<subseteq> set d \<union> (\<Union>b\<in>set bs. set b)"
  by (induction d bs rule: join_blocks.induct) auto

lemma tab_blocks_fragments:
  assumes "b \<in> set (map (\<lambda>(i, t). [FTab (g i t)]) xs)" and "f \<in> set b"
  shows "is_tab_output f"
  using assms by (induction xs) auto

lemma render_tabs_fragments:
  assumes "f \<in> set (render_tabs tt sc wseq before ts)"
  shows "f = FTabDelimiter (delimiter_text (tabDelimiter tt)) \<or> is_tab_output f"
proof -
  define d where "d = FTabDelimiter (delimiter_text (tabDelimiter tt))"
  define bs where "bs = map (\<lambda>(i, t).
              [FTab (emit (tab_fn tt)
                 \<lparr>tab = t, globalSeq = before + i,
                  windowTabSeq = (if window_boundaries sc then Some i else None),
                  windowSeq = (if window_boundaries sc then Some wseq else None)\<rparr>)])
           (enumerate 1 ts)"
  from assms have "f \<in> set (join_blocks [d] bs)"
    unfolding render_tabs_def d_def bs_def .
  with set_join [of "[d]" bs] have "f \<in> set [d] \<union> (\<Union>b\<in>set bs. set b)"
    by (rule subsetD)
  then have "f = d \<or> (\<exists>b\<in>set bs. f \<in> set b)" by simp
  then show ?thesis
  proof
    assume "f = d"
    then show ?thesis by (simp add: d_def)
  next
    assume "\<exists>b\<in>set bs. f \<in> set b"
    then obtain b where "b \<in> set bs" "f \<in> set b" by blast
    then have "is_tab_output f"
      unfolding bs_def by (rule tab_blocks_fragments)
    then show ?thesis by simp
  qed
qed

lemma window_block_fragments:
  assumes "f \<in> set (window_block tt sc wseq before w)"
  shows "in_window_block f
    \<and> (is_tab_delimiter f \<longrightarrow> f = FTabDelimiter (delimiter_text (tabDelimiter tt)))"
proof -
  from assms have "is_window_start f \<or> is_window_end f
      \<or> f \<in> set (render_tabs tt sc wseq before (tabs w))"
    by (auto simp: window_block_def split: if_splits)
  then show ?thesis
    using render_tabs_fragments [of f tt sc wseq before "tabs w"]
    by (cases f) auto
qed

lemma window_blocks_fragments:
  assumes "b \<in> set (window_blocks tt sc wseq before ws)" and "f \<in> set b"
  shows "in_window_block f
    \<and> (is_tab_delimiter f \<longrightarrow> f = FTabDelimiter (delimiter_text (tabDelimiter tt)))"
proof -
  from window_blocks_members [OF assms(1)] obtain n m w
    where "b = window_block tt sc n m w" by blast
  with assms(2) window_block_fragments show ?thesis by blast
qed

lemma in_window_block_no_window_delimiter: "in_window_block f \<Longrightarrow> \<not> is_window_delimiter f"
  by (cases f) simp_all

lemma render_fragments_delimiter_text:
  assumes "f \<in> set (render_fragments tt sc fname ws)"
  shows "(is_tab_delimiter f \<longrightarrow> f = FTabDelimiter (delimiter_text (tabDelimiter tt)))
    \<and> (is_window_delimiter f \<longrightarrow> f = FWindowDelimiter (delimiter_text (windowDelimiter tt)))"
proof (cases "is_tab_delimiter f \<or> is_window_delimiter f")
  case False
  then show ?thesis by simp
next
  case True
  define bs where "bs = window_blocks tt sc 1 0 ws"
  define d where "d = FWindowDelimiter (delimiter_text (windowDelimiter tt))"
  from True have ne: "\<And>s. f \<noteq> FStart s" "\<And>s. f \<noteq> FEnd s" by auto
  from assms ne have "f \<in> set (join_blocks [d] bs) \<or> f \<in> set (concat bs)"
    unfolding render_fragments_def bs_def d_def by (auto split: if_splits)
  with set_join [of "[d]" bs] have "f = d \<or> (\<exists>b\<in>set bs. f \<in> set b)"
    by auto
  then show ?thesis
  proof
    assume "f = d"
    then show ?thesis by (simp add: d_def)
  next
    assume "\<exists>b\<in>set bs. f \<in> set b"
    then obtain b where b: "b \<in> set (window_blocks tt sc 1 0 ws)" "f \<in> set b"
      unfolding bs_def by blast
    from window_blocks_fragments [OF b]
    have "in_window_block f"
      "is_tab_delimiter f \<longrightarrow> f = FTabDelimiter (delimiter_text (tabDelimiter tt))"
      by simp_all
    with in_window_block_no_window_delimiter [of f] show ?thesis by simp
  qed
qed

lemma filter_join:
  assumes "filter p d = []"
  shows "filter p (join_blocks d bs) = concat (map (filter p) bs)"
  using assms by (induction d bs rule: join_blocks.induct) simp_all

lemma filter_blocks_id:
  assumes "\<forall>b\<in>set bs. \<forall>f\<in>set b. p f"
  shows "concat (map (filter p) bs) = concat bs"
  using assms by (induction bs) simp_all

lemma render_fragments_blocks:
  "filter in_window_block (render_fragments tt sc fname ws)
    = concat (window_blocks tt sc 1 0 ws)"
proof -
  let ?bs = "window_blocks tt sc 1 0 ws"
  have all: "\<forall>b\<in>set ?bs. \<forall>f\<in>set b. in_window_block f"
    using window_blocks_fragments by blast
  have j: "filter in_window_block
      (join_blocks [FWindowDelimiter (delimiter_text (windowDelimiter tt))] ?bs) = concat ?bs"
    unfolding filter_blocks_id [OF all, symmetric] by (rule filter_join) simp
  have c: "filter in_window_block (concat ?bs) = concat ?bs"
    unfolding filter_concat by (rule filter_blocks_id [OF all])
  show ?thesis
    unfolding render_fragments_def filter_append by (simp only: j c split: if_splits) simp
qed

lemma window_blocks_nth:
  assumes "i < length ws"
  shows "\<exists>n m. window_blocks tt sc wseq before ws ! i = window_block tt sc n m (ws ! i)"
  using assms
proof (induction ws arbitrary: i wseq before)
  case Nil
  then show ?case by simp
next
  case (Cons w ws)
  show ?case
  proof (cases i)
    case 0
    then show ?thesis by auto
  next
    case (Suc j)
    with Cons.prems have "j < length ws" by simp
    from Cons.IH [OF this] Suc show ?thesis by simp
  qed
qed

lemma window_blocks_nth_count:
  assumes "i < length ws"
  shows "count_fragments is_tab_delimiter (window_blocks tt sc wseq before ws ! i)
    = length (tabs (ws ! i)) - 1"
proof -
  from window_blocks_nth [OF assms] obtain n m
    where "window_blocks tt sc wseq before ws ! i = window_block tt sc n m (ws ! i)" by blast
  then show ?thesis by (simp add: count_window_block_tab_delimiter)
qed

subsection \<open>The rendering as a whole\<close>

text \<open>
  The pipeline on an example in the style of the specification's: two windows of one tab
  each, rendered with \<^verbatim>\<open>titleUrl1Line\<close> for the scope of several windows.
\<close>

lemma render_two_windows_example:
  "text_out (render (titleUrl1Line_transforms sample_externals None) WindowsScope ''f''
      [\<lparr>tabs = [\<lparr>title = Some ''A'', url = Some ''http://a'', favIconUrl = None\<rparr>]\<rparr>,
       \<lparr>tabs = [\<lparr>title = None, url = Some ''http://b'', favIconUrl = None\<rparr>]\<rparr>])
    = ''Window 1\<newline>\<newline>A: http://a\<newline>\<newline>Window 2\<newline>\<newline>(untitled): http://b''"
  by (simp add: render_def render_text_def render_fragments_def window_block_def render_tabs_def
      window_boundaries_def titleUrl1Line_transforms_def no_transform_def emit_def
      delimiter_text_def enumerate_eq_zip getNumberedWindowText_def sample_externals_def
      getTitleUrlText_def js_or_str_def opts_separator_def DEFAULT_TITLE_URL_1_LINE_SEPARATOR_def
      total_tabs_def)

text \<open>
  C2, as the pipeline of the specification has it. Let \<open>fs\<close> be the fragments of one
  rendered representation (the text one, or the html one when it is declared); the
  rendered string is the concatenation of their texts. For every transform, scope and
  list of windows:
  \<^item> every tab delimiter of the rendering carries the text of \<^verbatim>\<open>tabDelimiter\<close> and every
    window delimiter the text of \<^verbatim>\<open>windowDelimiter\<close> (the empty string when the delimiter is
    not declared);
  \<^item> the rendering without its start, end and window delimiters is the sequence of the
    blocks of the windows, one block for each window, and the block of a window has one
    tab delimiter less than the window has tabs, and none when the window has no tab;
  \<^item> so the number of tab delimiters is the sum of these counts, and when every window
    has at least one tab it is the total number of tabs minus the number of windows;
  \<^item> every tab delimiter stands between two tab outputs, and the rendering neither
    begins nor ends with one;
  \<^item> for the scope of several windows, the window delimiter is inserted once less than
    the number of windows (never for an empty list), each time between the end of a window
    block and the start of the next, and the rendering neither begins nor ends with one.
\<close>

theorem render_delimiters:
  assumes "fs = render_fragments tt sc fname ws"
  shows "render_text tt sc fname ws = concat (map fragment_text fs)
    \<and> (tt = text_t tr \<longrightarrow> text_out (render tr sc fname ws) = concat (map fragment_text fs))
    \<and> (html_t tr = Some tt \<longrightarrow>
         html_out (render tr sc fname ws) = Some (concat (map fragment_text fs)))
    \<and> (\<forall>f\<in>set fs.
         (is_tab_delimiter f \<longrightarrow>
            f = FTabDelimiter (case tabDelimiter tt of None \<Rightarrow> [] | Some s \<Rightarrow> s))
         \<and> (is_window_delimiter f \<longrightarrow>
            f = FWindowDelimiter (case windowDelimiter tt of None \<Rightarrow> [] | Some s \<Rightarrow> s)))
    \<and> filter in_window_block fs = concat (window_blocks tt sc 1 0 ws)
    \<and> length (window_blocks tt sc 1 0 ws) = length ws
    \<and> (\<forall>i<length ws.
         (tabs (ws ! i) = [] \<longrightarrow>
            count_fragments is_tab_delimiter (window_blocks tt sc 1 0 ws ! i) = 0)
         \<and> (tabs (ws ! i) \<noteq> [] \<longrightarrow>
            count_fragments is_tab_delimiter (window_blocks tt sc 1 0 ws ! i) + 1
              = length (tabs (ws ! i))))
    \<and> count_fragments is_tab_delimiter fs = (\<Sum>w\<leftarrow>ws. length (tabs w) - 1)
    \<and> ((\<forall>w\<in>set ws. tabs w \<noteq> []) \<longrightarrow>
         count_fragments is_tab_delimiter fs + length ws = total_tabs ws)
    \<and> successively (\<lambda>a b. (is_tab_delimiter a \<longrightarrow> is_tab_output b)
                         \<and> (is_tab_delimiter b \<longrightarrow> is_tab_output a)) fs
    \<and> (fs \<noteq> [] \<longrightarrow> \<not> is_tab_delimiter (hd fs) \<and> \<not> is_tab_delimiter (last fs))
    \<and> (sc = WindowsScope \<and> ws \<noteq> [] \<longrightarrow>
         count_fragments is_window_delimiter fs + 1 = length ws)
    \<and> (sc = WindowsScope \<and> ws = [] \<longrightarrow> count_fragments is_window_delimiter fs = 0)
    \<and> (sc = WindowsScope \<longrightarrow>
         successively (\<lambda>a b. (is_window_delimiter a \<longrightarrow> is_window_start b)
                            \<and> (is_window_delimiter b \<longrightarrow> is_window_end a)) fs
         \<and> (fs \<noteq> [] \<longrightarrow> \<not> is_window_delimiter (hd fs) \<and> \<not> is_window_delimiter (last fs)))"
proof -
  note shape = render_fragments_shape [of tt sc fname ws, folded assms]
  have rendered: "render_text tt sc fname ws = concat (map fragment_text fs)"
    by (simp add: render_text_def assms)
  have rep_text: "text_out (render tr sc fname ws) = concat (map fragment_text fs)"
    if "tt = text_t tr"
    using that by (simp add: render_def render_text_def assms)
  have rep_html: "html_out (render tr sc fname ws) = Some (concat (map fragment_text fs))"
    if "html_t tr = Some tt"
    using that by (simp add: render_def render_text_def assms)
  have declared: "\<forall>f\<in>set fs.
         (is_tab_delimiter f \<longrightarrow>
            f = FTabDelimiter (case tabDelimiter tt of None \<Rightarrow> [] | Some s \<Rightarrow> s))
         \<and> (is_window_delimiter f \<longrightarrow>
            f = FWindowDelimiter (case windowDelimiter tt of None \<Rightarrow> [] | Some s \<Rightarrow> s))"
    using render_fragments_delimiter_text [of _ tt sc fname ws]
    unfolding assms delimiter_text_def by (intro ballI)
  have blocks: "filter in_window_block fs = concat (window_blocks tt sc 1 0 ws)"
    unfolding assms by (rule render_fragments_blocks)
  have nblocks: "length (window_blocks tt sc 1 0 ws) = length ws"
    by (rule length_window_blocks)
  have per_window: "\<forall>i<length ws.
         (tabs (ws ! i) = [] \<longrightarrow>
            count_fragments is_tab_delimiter (window_blocks tt sc 1 0 ws ! i) = 0)
         \<and> (tabs (ws ! i) \<noteq> [] \<longrightarrow>
            count_fragments is_tab_delimiter (window_blocks tt sc 1 0 ws ! i) + 1
              = length (tabs (ws ! i)))"
  proof (intro allI impI)
    fix i
    assume "i < length ws"
    from window_blocks_nth_count [OF this, of tt sc 1 0]
    have c: "count_fragments is_tab_delimiter (window_blocks tt sc 1 0 ws ! i)
      = length (tabs (ws ! i)) - 1" .
    show "(tabs (ws ! i) = [] \<longrightarrow>
            count_fragments is_tab_delimiter (window_blocks tt sc 1 0 ws ! i) = 0)
         \<and> (tabs (ws ! i) \<noteq> [] \<longrightarrow>
            count_fragments is_tab_delimiter (window_blocks tt sc 1 0 ws ! i) + 1
              = length (tabs (ws ! i)))"
      unfolding c by (cases "tabs (ws ! i)") simp_all
  qed
  have tabs_count: "count_fragments is_tab_delimiter fs = (\<Sum>w\<leftarrow>ws. length (tabs w) - 1)"
    unfolding assms by (rule count_render_tab_delimiter)
  have tabs_total: "count_fragments is_tab_delimiter fs + length ws = total_tabs ws"
    if "\<forall>w\<in>set ws. tabs w \<noteq> []"
    unfolding tabs_count by (rule tabs_minus_windows [OF that])
  have tabs_between: "successively (\<lambda>a b. (is_tab_delimiter a \<longrightarrow> is_tab_output b)
                         \<and> (is_tab_delimiter b \<longrightarrow> is_tab_output a)) fs"
    by (rule successively_mono [where P = well_placed])
       (use shape in \<open>simp_all add: well_placed_def\<close>)
  have tabs_edges: "\<not> is_tab_delimiter (hd fs) \<and> \<not> is_tab_delimiter (last fs)" if "fs \<noteq> []"
    using shape that by blast
  have windows_count: "count_fragments is_window_delimiter fs + 1 = length ws"
    if "sc = WindowsScope \<and> ws \<noteq> []"
  proof -
    from that have "0 < length ws" by simp
    with that show ?thesis
      unfolding assms count_render_window_delimiter by simp
  qed
  have windows_none: "count_fragments is_window_delimiter fs = 0"
    if "sc = WindowsScope \<and> ws = []"
    using that unfolding assms count_render_window_delimiter by simp
  have windows_between: "successively (\<lambda>a b. (is_window_delimiter a \<longrightarrow> is_window_start b)
                            \<and> (is_window_delimiter b \<longrightarrow> is_window_end a)) fs"
    by (rule successively_mono [where P = well_placed])
       (use shape in \<open>simp_all add: well_placed_def\<close>)
  have windows_edges: "\<not> is_window_delimiter (hd fs) \<and> \<not> is_window_delimiter (last fs)"
    if "fs \<noteq> []"
    using shape that by blast
  show ?thesis
    apply (intro conjI impI)
                   apply (rule rendered)
                  apply (erule rep_text)
                 apply (erule rep_html)
                apply (rule declared)
               apply (rule blocks)
              apply (rule nblocks)
             apply (rule per_window)
            apply (rule tabs_count)
           apply (erule tabs_total)
          apply (rule tabs_between)
         apply (simp add: tabs_edges)
        apply (simp add: tabs_edges)
       apply (erule windows_count)
      apply (erule windows_none)
     apply (rule windows_between)
    apply (simp add: windows_edges)
    apply (simp add: windows_edges)
    done
qed

theorem render_delimiters_witness:
  "count_fragments is_tab_delimiter
        (render_fragments (text_t (titleUrl1Line_transforms sample_externals None))
           WindowsScope ''f''
           [\<lparr>tabs = [\<lparr>title = Some ''A'', url = Some ''u'', favIconUrl = None\<rparr>,
                     \<lparr>title = Some ''B'', url = Some ''v'', favIconUrl = None\<rparr>]\<rparr>,
            \<lparr>tabs = [\<lparr>title = Some ''C'', url = Some ''w'', favIconUrl = None\<rparr>]\<rparr>]) = 1
   \<and> count_fragments is_window_delimiter
        (render_fragments (text_t (titleUrl1Line_transforms sample_externals None))
           WindowsScope ''f''
           [\<lparr>tabs = [\<lparr>title = Some ''A'', url = Some ''u'', favIconUrl = None\<rparr>,
                     \<lparr>title = Some ''B'', url = Some ''v'', favIconUrl = None\<rparr>]\<rparr>,
            \<lparr>tabs = [\<lparr>title = Some ''C'', url = Some ''w'', favIconUrl = None\<rparr>]\<rparr>]) = 1
   \<and> render_text (text_t (titleUrl1Line_transforms sample_externals None))
           WindowsScope ''f''
           [\<lparr>tabs = [\<lparr>title = Some ''A'', url = Some ''u'', favIconUrl = None\<rparr>,
                     \<lparr>title = Some ''B'', url = Some ''v'', favIconUrl = None\<rparr>]\<rparr>,
            \<lparr>tabs = [\<lparr>title = Some ''C'', url = Some ''w'', favIconUrl = None\<rparr>]\<rparr>]
       = ''Window 1\<newline>\<newline>A: u\<newline>B: v\<newline>\<newline>Window 2\<newline>\<newline>C: w''"
proof -
  have t: "total_tabs
           [\<lparr>tabs = [\<lparr>title = Some ''A'', url = Some ''u'', favIconUrl = None\<rparr>,
                     \<lparr>title = Some ''B'', url = Some ''v'', favIconUrl = None\<rparr>]\<rparr>,
            \<lparr>tabs = [\<lparr>title = Some ''C'', url = Some ''w'', favIconUrl = None\<rparr>]\<rparr>] = 3"
    by (simp add: total_tabs_def)
  have r: "concat (map fragment_text
        (render_fragments (text_t (titleUrl1Line_transforms sample_externals None))
           WindowsScope ''f''
           [\<lparr>tabs = [\<lparr>title = Some ''A'', url = Some ''u'', favIconUrl = None\<rparr>,
                     \<lparr>title = Some ''B'', url = Some ''v'', favIconUrl = None\<rparr>]\<rparr>,
            \<lparr>tabs = [\<lparr>title = Some ''C'', url = Some ''w'', favIconUrl = None\<rparr>]\<rparr>]))
       = ''Window 1\<newline>\<newline>A: u\<newline>B: v\<newline>\<newline>Window 2\<newline>\<newline>C: w''"
    by (simp add: render_fragments_def window_block_def render_tabs_def window_boundaries_def
        titleUrl1Line_transforms_def no_transform_def emit_def delimiter_text_def enumerate_eq_zip
        getNumberedWindowText_def sample_externals_def getTitleUrlText_def js_or_str_def
        opts_separator_def DEFAULT_TITLE_URL_1_LINE_SEPARATOR_def total_tabs_def)
  from render_delimiters [OF refl,
      of "text_t (titleUrl1Line_transforms sample_externals None)"
        WindowsScope "''f''"
        "[\<lparr>tabs = [\<lparr>title = Some ''A'', url = Some ''u'', favIconUrl = None\<rparr>,
                   \<lparr>title = Some ''B'', url = Some ''v'', favIconUrl = None\<rparr>]\<rparr>,
          \<lparr>tabs = [\<lparr>title = Some ''C'', url = Some ''w'', favIconUrl = None\<rparr>]\<rparr>]"]
  have "render_text (text_t (titleUrl1Line_transforms sample_externals None))
           WindowsScope ''f''
           [\<lparr>tabs = [\<lparr>title = Some ''A'', url = Some ''u'', favIconUrl = None\<rparr>,
                     \<lparr>title = Some ''B'', url = Some ''v'', favIconUrl = None\<rparr>]\<rparr>,
            \<lparr>tabs = [\<lparr>title = Some ''C'', url = Some ''w'', favIconUrl = None\<rparr>]\<rparr>]
     = concat (map fragment_text
        (render_fragments (text_t (titleUrl1Line_transforms sample_externals None))
           WindowsScope ''f''
           [\<lparr>tabs = [\<lparr>title = Some ''A'', url = Some ''u'', favIconUrl = None\<rparr>,
                     \<lparr>title = Some ''B'', url = Some ''v'', favIconUrl = None\<rparr>]\<rparr>,
            \<lparr>tabs = [\<lparr>title = Some ''C'', url = Some ''w'', favIconUrl = None\<rparr>]\<rparr>]))"
    and "(\<forall>w\<in>set [\<lparr>tabs = [\<lparr>title = Some ''A'', url = Some ''u'', favIconUrl = None\<rparr>,
                     \<lparr>title = Some ''B'', url = Some ''v'', favIconUrl = None\<rparr>]\<rparr>,
            \<lparr>tabs = [\<lparr>title = Some ''C'', url = Some ''w'', favIconUrl = None\<rparr>]\<rparr>]. tabs w \<noteq> [])
       \<longrightarrow> count_fragments is_tab_delimiter
        (render_fragments (text_t (titleUrl1Line_transforms sample_externals None))
           WindowsScope ''f''
           [\<lparr>tabs = [\<lparr>title = Some ''A'', url = Some ''u'', favIconUrl = None\<rparr>,
                     \<lparr>title = Some ''B'', url = Some ''v'', favIconUrl = None\<rparr>]\<rparr>,
            \<lparr>tabs = [\<lparr>title = Some ''C'', url = Some ''w'', favIconUrl = None\<rparr>]\<rparr>])
         + length [\<lparr>tabs = [\<lparr>title = Some ''A'', url = Some ''u'', favIconUrl = None\<rparr>,
                     \<lparr>title = Some ''B'', url = Some ''v'', favIconUrl = None\<rparr>]\<rparr>,
            \<lparr>tabs = [\<lparr>title = Some ''C'', url = Some ''w'', favIconUrl = None\<rparr>]\<rparr>]
         = total_tabs [\<lparr>tabs = [\<lparr>title = Some ''A'', url = Some ''u'', favIconUrl = None\<rparr>,
                     \<lparr>title = Some ''B'', url = Some ''v'', favIconUrl = None\<rparr>]\<rparr>,
            \<lparr>tabs = [\<lparr>title = Some ''C'', url = Some ''w'', favIconUrl = None\<rparr>]\<rparr>]"
    and "WindowsScope = WindowsScope
         \<and> [\<lparr>tabs = [\<lparr>title = Some ''A'', url = Some ''u'', favIconUrl = None\<rparr>,
                     \<lparr>title = Some ''B'', url = Some ''v'', favIconUrl = None\<rparr>]\<rparr>,
            \<lparr>tabs = [\<lparr>title = Some ''C'', url = Some ''w'', favIconUrl = None\<rparr>]\<rparr>] \<noteq> []
       \<longrightarrow> count_fragments is_window_delimiter
        (render_fragments (text_t (titleUrl1Line_transforms sample_externals None))
           WindowsScope ''f''
           [\<lparr>tabs = [\<lparr>title = Some ''A'', url = Some ''u'', favIconUrl = None\<rparr>,
                     \<lparr>title = Some ''B'', url = Some ''v'', favIconUrl = None\<rparr>]\<rparr>,
            \<lparr>tabs = [\<lparr>title = Some ''C'', url = Some ''w'', favIconUrl = None\<rparr>]\<rparr>]) + 1
         = length [\<lparr>tabs = [\<lparr>title = Some ''A'', url = Some ''u'', favIconUrl = None\<rparr>,
                     \<lparr>title = Some ''B'', url = Some ''v'', favIconUrl = None\<rparr>]\<rparr>,
            \<lparr>tabs = [\<lparr>title = Some ''C'', url = Some ''w'', favIconUrl = None\<rparr>]\<rparr>]"
    by blast+
  with t r show ?thesis by simp
qed

text \<open>
  With a window that has no tab the count differs: two windows, the first one empty and
  the second one with two tabs, give one tab delimiter (the rendering is a single comma),
  whereas the number of tabs minus the number of windows is 0.
\<close>

theorem render_empty_window_counterexample:
  "count_fragments is_tab_delimiter
      (render_fragments (no_transform\<lparr>tabDelimiter := Some '',''\<rparr>) WindowsScope ''f''
         [\<lparr>tabs = []\<rparr>,
          \<lparr>tabs = [\<lparr>title = None, url = Some ''u'', favIconUrl = None\<rparr>,
                   \<lparr>title = None, url = Some ''v'', favIconUrl = None\<rparr>]\<rparr>]) = 1
   \<and> render_text (no_transform\<lparr>tabDelimiter := Some '',''\<rparr>) WindowsScope ''f''
         [\<lparr>tabs = []\<rparr>,
          \<lparr>tabs = [\<lparr>title = None, url = Some ''u'', favIconUrl = None\<rparr>,
                   \<lparr>title = None, url = Some ''v'', favIconUrl = None\<rparr>]\<rparr>] = '',''
   \<and> total_tabs
         [\<lparr>tabs = []\<rparr>,
          \<lparr>tabs = [\<lparr>title = None, url = Some ''u'', favIconUrl = None\<rparr>,
                   \<lparr>title = None, url = Some ''v'', favIconUrl = None\<rparr>]\<rparr>]
       - length
         [\<lparr>tabs = []\<rparr>,
          \<lparr>tabs = [\<lparr>title = None, url = Some ''u'', favIconUrl = None\<rparr>,
                   \<lparr>title = None, url = Some ''v'', favIconUrl = None\<rparr>]\<rparr>] = 0"
  by (simp add: render_text_def render_fragments_def window_block_def render_tabs_def
      window_boundaries_def no_transform_def emit_def delimiter_text_def enumerate_eq_zip
      count_fragments_def total_tabs_def)

subsection \<open>The header row of a csv rendering\<close>





end
